theory Spec2Isabelle
  imports Complex_Main "HOL-Library.Word" "HOL-Library.Log_Nat"
begin

unbundle bit_operations_syntax

section \<open>Ring-down acquisition script \<open>Rd_test_clean.py\<close>\<close>

text \<open>
  The script is one straight-line Python module with a single helper function
  (\<open>wait_done\<close>).  Python integers are unbounded and are modelled as \<open>int\<close>; Python's
  \<open>//\<close> and \<open>%\<close> round towards minus infinity, as \<open>div\<close> and \<open>mod\<close> on \<open>int\<close> do.
  Every exception the script can raise is a value of \<open>error\<close>.
\<close>

datatype error =
    TypeError | ValueError | OverflowError | ZeroDivisionError
  | TimeoutError int int | EOFError | OSError | UnicodeEncodeError

subsection \<open>Python floats (IEEE binary64)\<close>

text \<open>
  A finite float is represented by the rational number it denotes.  Every float
  operation of the script is the exact rational operation followed by rounding to the
  nearest binary64 value, ties to even; a result beyond the largest finite double is an
  infinity.  The sign of a zero is not represented (no operation of the script can
  distinguish \<open>-0.0\<close> from \<open>0.0\<close>).
\<close>

datatype pyfloat = Fin rat | PInf | NInf | NaN

definition pow2 :: "int \<Rightarrow> rat" where
  "pow2 e = (if 0 \<le> e then 2 ^ nat e else 1 / 2 ^ nat (- e))"

definition rne :: "rat \<Rightarrow> int" where
  \<comment> \<open>round to the nearest integer, ties to even\<close>
  "rne x = (let f = \<lfloor>x\<rfloor>; r = x - of_int f
            in if r < 1 / 2 then f else if 1 / 2 < r then f + 1
               else if even f then f else f + 1)"

definition ilog2 :: "rat \<Rightarrow> int" where
  \<comment> \<open>\<open>\<lfloor>log\<^sub>2 x\<rfloor>\<close> for \<open>0 < x\<close>\<close>
  "ilog2 x = (let k = bitlen (fst (quotient_of x)) - bitlen (snd (quotient_of x))
              in if pow2 k \<le> x then k else k - 1)"

definition max_double :: rat where
  "max_double = (2 ^ 53 - 1) * 2 ^ 971"

definition to_double :: "rat \<Rightarrow> pyfloat" where
  \<comment> \<open>53 significant bits, least exponent \<open>-1074\<close> (subnormals), overflow to infinity\<close>
  "to_double x =
     (if x = 0 then Fin 0
      else let e = max (ilog2 \<bar>x\<bar> - 52) (- 1074);
               y = of_int (rne (x / pow2 e)) * pow2 e
           in if max_double < y then PInf
              else if y < - max_double then NInf
              else Fin y)"

fun fmul :: "pyfloat \<Rightarrow> pyfloat \<Rightarrow> pyfloat" where
  "fmul (Fin a) (Fin b) = to_double (a * b)"
| "fmul NaN _ = NaN"
| "fmul _ NaN = NaN"
| "fmul (Fin a) PInf = (if a = 0 then NaN else if 0 < a then PInf else NInf)"
| "fmul (Fin a) NInf = (if a = 0 then NaN else if 0 < a then NInf else PInf)"
| "fmul PInf (Fin b) = (if b = 0 then NaN else if 0 < b then PInf else NInf)"
| "fmul NInf (Fin b) = (if b = 0 then NaN else if 0 < b then NInf else PInf)"
| "fmul PInf PInf = PInf"
| "fmul PInf NInf = NInf"
| "fmul NInf PInf = NInf"
| "fmul NInf NInf = PInf"

definition float_of_int :: "int \<Rightarrow> error + pyfloat" where
  \<comment> \<open>the conversion Python applies to the \<open>int\<close> operand of \<open>int * float\<close>\<close>
  "float_of_int i =
     (case to_double (of_int i) of Fin y \<Rightarrow> Inr (Fin y) | _ \<Rightarrow> Inl OverflowError)"

fun py_int :: "pyfloat \<Rightarrow> error + int" where
  \<comment> \<open>\<open>int(f)\<close>: truncation towards zero\<close>
  "py_int (Fin x) = Inr (if 0 \<le> x then \<lfloor>x\<rfloor> else \<lceil>x\<rceil>)"
| "py_int NaN = Inl ValueError"
| "py_int _ = Inl OverflowError"

definition mul_int_float :: "int \<Rightarrow> pyfloat \<Rightarrow> error + pyfloat" where
  \<comment> \<open>\<open>i * f\<close>\<close>
  "mul_int_float i f =
     (case float_of_int i of Inl e \<Rightarrow> Inl e | Inr g \<Rightarrow> Inr (fmul g f))"

definition mul_float_int :: "pyfloat \<Rightarrow> int \<Rightarrow> error + pyfloat" where
  \<comment> \<open>\<open>f * i\<close>\<close>
  "mul_float_int f i =
     (case float_of_int i of Inl e \<Rightarrow> Inl e | Inr g \<Rightarrow> Inr (fmul f g))"

definition lit_1em6 :: pyfloat where
  \<comment> \<open>the literal \<open>1e-6\<close>\<close>
  "lit_1em6 = to_double (1 / 1000000)"

definition py_floordiv :: "int \<Rightarrow> int \<Rightarrow> error + int" where
  "py_floordiv a b = (if b = 0 then Inl ZeroDivisionError else Inr (a div b))"

subsection \<open>Module constants\<close>

text \<open>
  The configuration block at the top of the script.  Sizes and addresses are natural
  numbers; the timing values and the sample rate are Python integers.  \<open>OUT_META\<close> is
  computed once at load time from \<open>OUT_RAW\<close> and is kept as a field of its own.
\<close>

record config =
  MODE :: string
  FREQ_HZ :: pyfloat
  DURATION_S :: pyfloat
  AM_PK_V :: pyfloat
  EXCITATION_TIME_US :: int
  RELAXATION_TIME_US :: int
  SAMPLE_RATE :: int
  DAC_BITS :: int
  FULL_SCALE_V :: pyfloat
  OUT_RAW :: string
  OUT_META :: string
  AXIL_BASE :: nat
  AXIL_SIZE :: nat
  RAM_BASE :: nat
  RAM_SIZE :: nat
  SAMPLE_SIZE :: nat
  BURST_BYTES :: nat

definition shipped :: config where
  "shipped = \<lparr> MODE = ''RINGDOWN'',
               FREQ_HZ = Fin 4500000,
               DURATION_S = to_double (1 / 1000),
               AM_PK_V = to_double (5 / 100),
               EXCITATION_TIME_US = 300,
               RELAXATION_TIME_US = 3000,
               SAMPLE_RATE = 125000000,
               DAC_BITS = 14,
               FULL_SCALE_V = Fin 2,
               OUT_RAW = ''ringdown_data.raw'',
               OUT_META = ''ringdown_data.json'',
               AXIL_BASE = 0x40000000,
               AXIL_SIZE = 0x1000,
               RAM_BASE = 0x01000000,
               RAM_SIZE = 4 * 1024 * 1024,
               SAMPLE_SIZE = 2,
               BURST_BYTES = 128 \<rparr>"

subsection \<open>RAM layout (script lines 197--253)\<close>

record layout =
  waveform_samples :: int
  waveform_bytes :: int
  waveform_bursts :: int
  writer_offset :: int
  writer_offset_rel :: int
  relax_samples :: int
  relax_samples_aligned :: int
  writer_num_bursts :: int
  true_writer_bytes :: int

definition pad_waveform :: "int \<Rightarrow> int" where
  \<comment> \<open>\<open>pad = (-waveform_bytes) % 64; if pad > 0: waveform_bytes += pad\<close>\<close>
  "pad_waveform wbytes =
     (let pad = (- wbytes) mod 64
      in if 0 < pad then wbytes + pad else wbytes)"

definition relax_product :: "int \<Rightarrow> int \<Rightarrow> error + pyfloat" where
  \<comment> \<open>\<open>(RELAXATION_TIME_US * 1e-6) * SAMPLE_RATE\<close>\<close>
  "relax_product us rate =
     (case mul_int_float us lit_1em6 of Inl e \<Rightarrow> Inl e | Inr p \<Rightarrow> mul_float_int p rate)"

definition relax_count :: "int \<Rightarrow> int \<Rightarrow> error + int" where
  \<comment> \<open>\<open>int((RELAXATION_TIME_US * 1e-6) * SAMPLE_RATE)\<close>\<close>
  "relax_count us rate =
     (case relax_product us rate of Inl e \<Rightarrow> Inl e | Inr q \<Rightarrow> py_int q)"

definition align_relax :: "int \<Rightarrow> int" where
  \<comment> \<open>\<open>relax_samples + (-relax_samples) % 64\<close>\<close>
  "align_relax relax = relax + (- relax) mod 64"

definition capture_bursts :: "nat \<Rightarrow> nat \<Rightarrow> int \<Rightarrow> error + int" where
  \<comment> \<open>\<open>(relax_samples_aligned * SAMPLE_SIZE) // BURST_BYTES\<close>\<close>
  "capture_bursts sample_size burst_bytes aligned =
     py_floordiv (aligned * int sample_size) (int burst_bytes)"

definition capture_bytes :: "nat \<Rightarrow> int \<Rightarrow> int" where
  \<comment> \<open>\<open>writer_num_bursts * BURST_BYTES\<close>\<close>
  "capture_bytes burst_bytes num_bursts = num_bursts * int burst_bytes"

definition compute_layout :: "config \<Rightarrow> nat \<Rightarrow> error + layout" where
  "compute_layout c n =
     (let samples = int n;
          bytes = pad_waveform (samples * int (SAMPLE_SIZE c))
      in case py_floordiv bytes (int (BURST_BYTES c)) of
           Inl e \<Rightarrow> Inl e
         | Inr bursts \<Rightarrow>
             let offset = int (RAM_BASE c) + bytes;
                 offset_rel = offset - int (RAM_BASE c)
             in case relax_count (RELAXATION_TIME_US c) (SAMPLE_RATE c) of
                  Inl e \<Rightarrow> Inl e
                | Inr relax \<Rightarrow>
                    let aligned = align_relax relax
                    in case capture_bursts (SAMPLE_SIZE c) (BURST_BYTES c) aligned of
                         Inl e \<Rightarrow> Inl e
                       | Inr num_bursts \<Rightarrow>
                           Inr \<lparr> waveform_samples = samples,
                                 waveform_bytes = bytes,
                                 waveform_bursts = bursts,
                                 writer_offset = offset,
                                 writer_offset_rel = offset_rel,
                                 relax_samples = relax,
                                 relax_samples_aligned = aligned,
                                 writer_num_bursts = num_bursts,
                                 true_writer_bytes =
                                   capture_bytes (BURST_BYTES c) num_bursts \<rparr>)"

text \<open>The spec's formula for the raw relax-sample count, over exact rationals.\<close>

definition spec_relax_samples :: "int \<Rightarrow> int \<Rightarrow> int" where
  "spec_relax_samples us rate = \<lceil>(of_int us :: rat) * (1 / 1000000) * of_int rate\<rceil>"

subsection \<open>Register map\<close>

definition MLA_CONST_REG :: nat where "MLA_CONST_REG = 0x00"
definition WRITER_MIN_ADDRESS_REG :: nat where "WRITER_MIN_ADDRESS_REG = 0x04"
definition WRITER_NUM_BURSTS_REG :: nat where "WRITER_NUM_BURSTS_REG = 0x08"
definition SOFT_RESET_REG :: nat where "SOFT_RESET_REG = 0x0C"
definition WRITER_WRITE_PTR_REG :: nat where "WRITER_WRITE_PTR_REG = 0x10"
definition WRITER_DONE_REG :: nat where "WRITER_DONE_REG = 0x14"
definition RELAXATION_TIME_REG :: nat where "RELAXATION_TIME_REG = 0x18"
definition EXCITATION_TIME_REG :: nat where "EXCITATION_TIME_REG = 0x1C"
definition READER_MIN_ADDRESS_REG :: nat where "READER_MIN_ADDRESS_REG = 0x20"
definition READER_READ_PTR_REG :: nat where "READER_READ_PTR_REG = 0x24"
definition READER_DONE_REG :: nat where "READER_DONE_REG = 0x28"
definition READER_COMP_BURST_OUT_REG :: nat where "READER_COMP_BURST_OUT_REG = 0x2C"
definition READER_NUM_BURSTS_REG :: nat where "READER_NUM_BURSTS_REG = 0x30"
definition WRITER_COMP_BURST_OUT_REG :: nat where "WRITER_COMP_BURST_OUT_REG = 0x34"
definition READER_CONTINUOUS_MODE_REG :: nat where "READER_CONTINUOUS_MODE_REG = 0x38"
definition WRITER_CONTINUOUS_MODE_REG :: nat where "WRITER_CONTINUOUS_MODE_REG = 0x3C"
definition RELAY_ENABLED_REG :: nat where "RELAY_ENABLED_REG = 0x40"
definition TRIGGER_ENABLED_REG :: nat where "TRIGGER_ENABLED_REG = 0x44"

subsection \<open>Effects of the script\<close>

text \<open>
  A run of the script is the list of things it does to the outside world, in order, and
  the way it stops: \<open>None\<close> when it runs to its last line, \<open>Exit n\<close> for \<open>sys.exit(n)\<close>,
  \<open>Raise e\<close> for an uncaught exception.  A formatted message is kept as its literal
  pieces and the values formatted into it (\<open>D\<close> decimal, \<open>X\<close> upper-case hexadecimal,
  \<open>F1\<close> and \<open>F2\<close> fixed point with one and two digits).
\<close>

type_synonym byte = "8 word"

datatype piece = S string | D int | X int | F1 pyfloat | F2 pyfloat

record metadata =
  md_mode :: string
  md_excitation_frequency_hz :: pyfloat
  md_amplitude_peak_v :: pyfloat
  md_excitation_time_us :: int
  md_relaxation_time_us :: int
  md_sample_rate_hz :: int
  md_layout :: layout
  md_raw_output_file :: string
  md_json_output_file :: string
  md_timestamp :: string

datatype event =
    Print "piece list"
  | Print_No_Newline "piece list"
  | Mmio_Open nat nat
  | Mmio_Close nat
  | Read32 nat
  | Write32 nat int
  | Ram_Write int "byte list"
  | Ram_Read int int
  | Sleep pyfloat
  | Input string
  | File_Open string
  | File_Write string "byte list"
  | File_Close string
  | Json_Dump string metadata

fun register_access :: "event \<Rightarrow> bool" where
  "register_access (Read32 reg) = True"
| "register_access (Write32 reg v) = True"
| "register_access _ = False"

fun buffer_access :: "event \<Rightarrow> bool" where
  "buffer_access (Ram_Write off data) = True"
| "buffer_access (Ram_Read off len) = True"
| "buffer_access _ = False"

fun printed :: "event \<Rightarrow> bool" where
  "printed (Print ps) = True"
| "printed (Print_No_Newline ps) = True"
| "printed _ = False"

datatype stop = Exit int | Raise error

type_synonym step = "event list \<times> stop option"

definition emit :: "event \<Rightarrow> step" where
  "emit e = ([e], None)"

definition say :: "string \<Rightarrow> step" where
  "say s = emit (Print [S s])"

definition raise :: "error \<Rightarrow> step" where
  "raise e = ([], Some (Raise e))"

fun seq :: "step list \<Rightarrow> step" where
  "seq [] = ([], None)"
| "seq ((es, Some s) # rest) = (es, Some s)"
| "seq ((es, None) # rest) = (case seq rest of (es', r) \<Rightarrow> (es @ es', r))"

text \<open>
  What the script cannot decide itself: whether the two mappings succeed, what the
  identity register holds, the samples numpy computes for the sine (their number is
  decided by the script, their values are not modelled), the bytes found in the capture
  region when it is read back, whether a line arrives on standard input, whether the two
  output files can be opened, the clock's timestamp, and which characters the encoding of
  standard output has.

  The message of a failed mapping is the text of the exception the library raises; the
  library composes it from ASCII text.
\<close>

record env =
  axil_open_error :: "string option"
  ram_open_error :: "string option"
  mla_const :: "32 word"
  wave_sample :: "nat \<Rightarrow> 16 word"
  ram_content :: "nat \<Rightarrow> byte"
  stdin_line :: "string option"
  raw_open_ok :: bool
  meta_open_ok :: bool
  timestamp :: string
  stdout_encodes :: "char \<Rightarrow> bool"

subsection \<open>Printing\<close>

text \<open>
  \<open>print\<close> encodes the whole line before it writes any of it, and raises
  \<open>UnicodeEncodeError\<close> when the encoding of standard output lacks one of its characters.
  Every encoding has the ASCII characters.  The literal text of the script and the numbers
  it formats are ASCII, so those lines are always printed (\<open>say\<close>, \<open>emit (Print \<dots>)\<close>); a
  line that holds the decoded identity register or a configured file name goes through
  \<open>py_print\<close>.  Standard output is taken to accept every write.
\<close>

definition printable :: "env \<Rightarrow> string \<Rightarrow> bool" where
  "printable env s = list_all (\<lambda>ch. (of_char ch :: nat) < 128 \<or> stdout_encodes env ch) s"

fun printable_piece :: "env \<Rightarrow> piece \<Rightarrow> bool" where
  "printable_piece env (S s) = printable env s"
| "printable_piece env _ = True"

definition py_print :: "env \<Rightarrow> piece list \<Rightarrow> step" where
  "py_print env ps =
     (if list_all (printable_piece env) ps then emit (Print ps)
      else raise UnicodeEncodeError)"

subsection \<open>The memory-mapped I/O library, as the script uses it\<close>

text \<open>
  \<open>read32\<close> and \<open>write32\<close> refuse an access beyond the mapped size and a value outside
  32 bits; \<open>read\<close> and \<open>write\<close> refuse a range beyond the mapped size.  All offsets the
  script passes are non-negative.
\<close>

definition read32 :: "config \<Rightarrow> nat \<Rightarrow> step" where
  "read32 c reg = (if AXIL_SIZE c < reg + 4 then raise ValueError else emit (Read32 reg))"

definition write32 :: "config \<Rightarrow> nat \<Rightarrow> int \<Rightarrow> step" where
  "write32 c reg v =
     (if v < 0 \<or> 0xffffffff < v then raise ValueError
      else if AXIL_SIZE c < reg + 4 then raise ValueError
      else emit (Write32 reg v))"

definition ram_write :: "config \<Rightarrow> int \<Rightarrow> byte list \<Rightarrow> step" where
  "ram_write c off data =
     (if int (RAM_SIZE c) < off + int (length data) then raise ValueError
      else emit (Ram_Write off data))"

definition ram_read :: "config \<Rightarrow> env \<Rightarrow> int \<Rightarrow> int \<Rightarrow> error + byte list" where
  "ram_read c env off len =
     (if int (RAM_SIZE c) < off + len then Inl ValueError
      else Inr (map (ram_content env) [nat off ..< nat (off + len)]))"

subsection \<open>Mapping, identity check, reset (script lines 137--180)\<close>

definition quote :: piece where
  "quote = S [CHR 0x27]"

definition map_regions :: "config \<Rightarrow> env \<Rightarrow> step" where
  "map_regions c env =
     (case axil_open_error env of
        Some e \<Rightarrow> ([Print [S ''ERROR: Unable to map FPGA memory regions: '', S e]], Some (Exit 1))
      | None \<Rightarrow>
         (case ram_open_error env of
            Some e \<Rightarrow>
              ([Mmio_Open (AXIL_BASE c) (AXIL_SIZE c),
                Print [S ''ERROR: Unable to map FPGA memory regions: '', S e]], Some (Exit 1))
          | None \<Rightarrow>
              ([Mmio_Open (AXIL_BASE c) (AXIL_SIZE c), Mmio_Open (RAM_BASE c) (RAM_SIZE c)],
               None)))"

definition to_bytes_big :: "32 word \<Rightarrow> byte list" where
  \<comment> \<open>\<open>raw_const.to_bytes(4, byteorder="big")\<close>\<close>
  "to_bytes_big w = [ucast (drop_bit 24 w), ucast (drop_bit 16 w), ucast (drop_bit 8 w), ucast w]"

definition decode_latin1 :: "byte list \<Rightarrow> string" where
  \<comment> \<open>every byte is a Latin-1 code point, so \<open>errors="ignore"\<close> never drops one\<close>
  "decode_latin1 bs = map (\<lambda>b. char_of (unat b)) bs"

definition py_isspace :: "char \<Rightarrow> bool" where
  \<comment> \<open>the code points below 256 that \<open>str.strip()\<close> removes\<close>
  "py_isspace ch =
     (let n = (of_char ch :: nat)
      in (9 \<le> n \<and> n \<le> 13) \<or> (28 \<le> n \<and> n \<le> 32) \<or> n = 133 \<or> n = 160)"

definition strip :: "string \<Rightarrow> string" where
  "strip s = rev (dropWhile py_isspace (rev (dropWhile py_isspace s)))"

definition magic_str :: "32 word \<Rightarrow> string" where
  "magic_str raw_const = strip (decode_latin1 (to_bytes_big raw_const))"

definition expected_magic :: string where
  \<comment> \<open>the literal compared against: A WITH RING ABOVE (U+00C5), \<open>A\<close>, \<open>B\<close>, \<open>C\<close>\<close>
  "expected_magic = [CHR 0xC5, CHR ''A'', CHR ''B'', CHR ''C'']"


definition identity_check :: "config \<Rightarrow> env \<Rightarrow> step" where
  "identity_check c env =
     seq [read32 c MLA_CONST_REG,
          (if magic_str (mla_const env) \<noteq> expected_magic
           then seq [py_print env
                       [S ''Warning: unrecognized FPGA version constant '', quote,
                        S (magic_str (mla_const env)), quote, S ''.''],
                     say ''Assuming default Red Pitaya overlay (ring-down mode). Continuing.'']
           else ([], None)),
          py_print env [S ''Device identity confirmed: '', quote,
                        S (magic_str (mla_const env)), quote]]"

text \<open>
  \<open>time.sleep\<close> (CPython 3.11) refuses NaN with \<open>ValueError\<close>; it converts the duration to
  nanoseconds in double precision and refuses with \<open>OverflowError\<close> a count outside the
  signed 64-bit range; it refuses a negative duration with \<open>ValueError\<close>.  For a duration
  of centuries, just below that range, the operating system may refuse the deadline; this
  case is not modelled, and nothing proved below sleeps for more than \<open>2^31\<close> seconds unless
  the configuration asks for it.
\<close>

definition sleep_error :: "pyfloat \<Rightarrow> error option" where
  \<comment> \<open>the exception \<open>time.sleep(d)\<close> raises, if any\<close>
  "sleep_error d =
     (case d of
        NaN \<Rightarrow> Some ValueError
      | Fin x \<Rightarrow>
          (case fmul d (Fin 1000000000) of
             Fin ns \<Rightarrow>
               if ns < - (2 ^ 63) \<or> 2 ^ 63 \<le> ns then Some OverflowError
               else if x < 0 then Some ValueError
               else None
           | _ \<Rightarrow> Some OverflowError)
      | _ \<Rightarrow> Some OverflowError)"

definition py_sleep :: "pyfloat \<Rightarrow> step" where
  "py_sleep d = (case sleep_error d of Some e \<Rightarrow> raise e | None \<Rightarrow> emit (Sleep d))"

definition reset_device :: "config \<Rightarrow> step" where
  "reset_device c =
     seq [write32 c SOFT_RESET_REG 1,
          write32 c WRITER_MIN_ADDRESS_REG 0,
          write32 c WRITER_NUM_BURSTS_REG 0,
          write32 c RELAXATION_TIME_REG 0,
          write32 c EXCITATION_TIME_REG 0,
          write32 c RELAY_ENABLED_REG 0,
          write32 c READER_CONTINUOUS_MODE_REG 0,
          write32 c WRITER_CONTINUOUS_MODE_REG 0,
          py_sleep (Fin (1 / 2)),
          say ''Device reset complete. Hardware is in a known idle state.'']"

definition startup :: "config \<Rightarrow> env \<Rightarrow> step" where
  "startup c env =
     seq [say ''Mapping FPGA memory regions...'',
          map_regions c env,
          say ''Memory mapping OK.'',
          say ''Checking FPGA identity constant...'',
          identity_check c env,
          say ''Resetting device and clearing configuration...'',
          reset_device c]"

subsection \<open>The completion waiter \<open>wait_done\<close> (script lines 109--131)\<close>

text \<open>
  The loop talks to the register file and to the clock.  One element of the list below
  is what one pass through the loop body observes: the four values \<open>read32\<close> returns, in
  the order the body reads them, and the value \<open>time.time() - t0\<close> has once the four registers
  have been read, which is the value the timeout test uses when the pass reaches it.  The
  four registers are taken to lie inside the mapping, so that every \<open>read32\<close> returns.  The
  loop may need any number of passes; the result is \<open>None\<close> when the observations given are
  used up before the loop has returned or raised.  \<open>timeout_s\<close> and the elapsed times are
  finite floats, given by their values; \<open>poll_interval\<close> is any float.  The second component
  is what the loop has done: the registers read and the pauses made.
\<close>

record poll =
  writer_done_val :: "32 word"
  reader_done_val :: "32 word"
  write_ptr_val :: "32 word"
  read_ptr_val :: "32 word"
  elapsed :: rat

definition both_done :: "poll \<Rightarrow> bool" where
  \<comment> \<open>\<open>writer_done and reader_done\<close>, each flag being the register value \<open>& 0x1\<close>\<close>
  "both_done p = (writer_done_val p AND 1 \<noteq> 0 \<and> reader_done_val p AND 1 \<noteq> 0)"

definition timed_out :: "rat \<Rightarrow> poll \<Rightarrow> bool" where
  \<comment> \<open>\<open>time.time() - t0 > timeout_s\<close>\<close>
  "timed_out timeout_s p = (timeout_s < elapsed p)"

definition poll_reads :: "event list" where
  \<comment> \<open>the registers one pass reads, in order\<close>
  "poll_reads = [Read32 WRITER_DONE_REG, Read32 READER_DONE_REG,
                 Read32 WRITER_WRITE_PTR_REG, Read32 READER_READ_PTR_REG]"

fun wait_done ::
  "rat \<Rightarrow> pyfloat \<Rightarrow> poll list \<Rightarrow> (error + int \<times> int) option \<times> event list" where
  "wait_done timeout_s poll_interval [] = (None, [])"
| "wait_done timeout_s poll_interval (p # ps) =
     (let write_ptr = uint (write_ptr_val p);
          read_ptr = uint (read_ptr_val p)
      in if both_done p then (Some (Inr (write_ptr, read_ptr)), poll_reads)
         else if timed_out timeout_s p
           then (Some (Inl (TimeoutError write_ptr read_ptr)), poll_reads)
         else (case sleep_error poll_interval of
                 Some e \<Rightarrow> (Some (Inl e), poll_reads)
               | None \<Rightarrow>
                  (case wait_done timeout_s poll_interval ps of
                     (r, later) \<Rightarrow> (r, poll_reads @ Sleep poll_interval # later))))"

text \<open>
  The spec's description of the waiter: the pointers of the pass in which both flags are
  first seen set are returned if that happens within the timeout; a pass that comes after
  the timeout raises \<open>TimeoutError\<close> with the pointers read last.
\<close>

fun spec_wait_done :: "rat \<Rightarrow> poll list \<Rightarrow> (error + int \<times> int) option" where
  "spec_wait_done timeout_s [] = None"
| "spec_wait_done timeout_s (p # ps) =
     (if timed_out timeout_s p
      then Some (Inl (TimeoutError (uint (write_ptr_val p)) (uint (read_ptr_val p))))
      else if both_done p
        then Some (Inr (uint (write_ptr_val p), uint (read_ptr_val p)))
      else spec_wait_done timeout_s ps)"

subsection \<open>Waveform generation and the chunked write (script lines 186--272)\<close>

definition sample_count :: "config \<Rightarrow> error + int" where
  \<comment> \<open>\<open>N = int(DURATION_S * SAMPLE_RATE)\<close>\<close>
  "sample_count c =
     (case mul_float_int (DURATION_S c) (SAMPLE_RATE c) of Inl e \<Rightarrow> Inl e | Inr f \<Rightarrow> py_int f)"

definition waveform_of :: "env \<Rightarrow> int \<Rightarrow> 16 word list" where
  \<comment> \<open>\<open>np.arange(N)\<close> is empty for \<open>N \<le> 0\<close>\<close>
  "waveform_of env N = map (wave_sample env) [0 ..< nat N]"

definition tobytes :: "16 word list \<Rightarrow> byte list" where
  \<comment> \<open>two bytes a sample, low byte first\<close>
  "tobytes ws = concat (map (\<lambda>w. [ucast w, ucast (drop_bit 8 w)]) ws)"

function py_range :: "int \<Rightarrow> int \<Rightarrow> int \<Rightarrow> int list" where
  \<comment> \<open>\<open>range(start, stop, step)\<close> for a positive step\<close>
  "py_range i stop stp = (if 0 < stp \<and> i < stop then i # py_range (i + stp) stop stp else [])"
  by pat_completeness auto
termination
  by (relation "measure (\<lambda>(i, stop, stp). nat (stop - i))") auto

declare py_range.simps [simp del]

definition py_slice :: "'a list \<Rightarrow> int \<Rightarrow> int \<Rightarrow> 'a list" where
  \<comment> \<open>\<open>xs[i:j]\<close> for \<open>0 \<le> i\<close>\<close>
  "py_slice xs i j = take (nat (j - i)) (drop (nat i) xs)"

definition call_bytes :: "byte list \<Rightarrow> error + byte list" where
  \<comment> \<open>\<open>wave_bytes()\<close>: a \<open>bytes\<close> object is not callable\<close>
  "call_bytes b = Inl TypeError"

fun write_chunks :: "config \<Rightarrow> byte list \<Rightarrow> int \<Rightarrow> int list \<Rightarrow> step" where
  \<comment> \<open>\<open>for i in range(...): ram_mmio.write(i, wave_bytes()[i:i+chunk_size])\<close>\<close>
  "write_chunks c wave_bytes chunk_size [] = ([], None)"
| "write_chunks c wave_bytes chunk_size (i # rest) =
     (case call_bytes wave_bytes of
        Inl e \<Rightarrow> raise e
      | Inr called \<Rightarrow>
          seq [ram_write c i (py_slice called i (i + chunk_size)),
               write_chunks c wave_bytes chunk_size rest])"

definition write_waveform :: "config \<Rightarrow> byte list \<Rightarrow> step" where
  "write_waveform c wave_bytes =
     seq [say ''Writing excitation waveform to DDR...'',
          write_chunks c wave_bytes (1024 * 1024)
            (py_range 0 (int (length wave_bytes)) (1024 * 1024)),
          say ''Waveform written.'']"

subsection \<open>Configuration and start (script lines 278--334)\<close>

definition configure :: "config \<Rightarrow> layout \<Rightarrow> step" where
  "configure c l =
     seq [say ''Configuring FPGA Ring-Down registers...'',
          write32 c WRITER_MIN_ADDRESS_REG (int (RAM_BASE c)),
          write32 c WRITER_NUM_BURSTS_REG (waveform_bursts l),
          write32 c READER_MIN_ADDRESS_REG (writer_offset l),
          write32 c READER_NUM_BURSTS_REG (writer_num_bursts l),
          write32 c EXCITATION_TIME_REG (EXCITATION_TIME_US c),
          write32 c RELAXATION_TIME_REG (RELAXATION_TIME_US c),
          write32 c RELAY_ENABLED_REG 1,
          write32 c READER_CONTINUOUS_MODE_REG 0,
          write32 c WRITER_CONTINUOUS_MODE_REG 0,
          write32 c TRIGGER_ENABLED_REG 0,
          say ''FPGA configuration complete.'',
          say ''Ready to begin ring-down measurement.'']"

definition py_input :: "env \<Rightarrow> string \<Rightarrow> step" where
  "py_input env prompt =
     (case stdin_line env of
        None \<Rightarrow> ([Input prompt], Some (Raise EOFError))
      | Some line \<Rightarrow> ([Input prompt], None))"

definition sleep_us :: "int \<Rightarrow> step" where
  \<comment> \<open>\<open>time.sleep(us * 1e-6)\<close>\<close>
  "sleep_us us = (case mul_int_float us lit_1em6 of Inl e \<Rightarrow> raise e | Inr d \<Rightarrow> py_sleep d)"

definition run_measurement :: "config \<Rightarrow> env \<Rightarrow> byte list \<Rightarrow> step" where
  "run_measurement c env zero_bytes =
     seq [py_input env ''Press ENTER to start measurement...'',
          write32 c SOFT_RESET_REG 0,
          say ''Measurement started. FPGA running...'',
          sleep_us (EXCITATION_TIME_US c),
          ram_write c 0 zero_bytes,
          sleep_us (RELAXATION_TIME_US c),
          say ''Assuming ring-down capture complete.'']"

subsection \<open>Reading the capture back (script lines 341--363)\<close>

definition py_truediv :: "int \<Rightarrow> int \<Rightarrow> error + pyfloat" where
  \<comment> \<open>\<open>a / b\<close> on integers: the correctly rounded quotient\<close>
  "py_truediv a b =
     (if b = 0 then Inl ZeroDivisionError
      else case to_double (of_int a / of_int b) of
             Fin q \<Rightarrow> Inr (Fin q) | _ \<Rightarrow> Inl OverflowError)"

fun fdiv_1024 :: "pyfloat \<Rightarrow> pyfloat" where
  \<comment> \<open>\<open>f / 1024\<close>\<close>
  "fdiv_1024 (Fin a) = to_double (a / 1024)"
| "fdiv_1024 f = f"

definition progress_line :: "int \<Rightarrow> int \<Rightarrow> step" where
  "progress_line bytes_read bytes_to_read =
     (case py_truediv bytes_read bytes_to_read of
        Inl e \<Rightarrow> raise e
      | Inr ratio \<Rightarrow>
         (case py_truediv bytes_read 1024 of
            Inl e \<Rightarrow> raise e
          | Inr kib \<Rightarrow>
              emit (Print_No_Newline
                [S (CHR 0x0D # ''Progress: ''), F1 (fmul ratio (Fin 100)), S ''%  ('',
                 F2 (fdiv_1024 kib), S '' MB)''])))"

fun extract_loop ::
  "config \<Rightarrow> env \<Rightarrow> int \<Rightarrow> int \<Rightarrow> int \<Rightarrow> int \<Rightarrow> int list \<Rightarrow> step" where
  \<comment> \<open>the body of \<open>for offset in range(0, bytes_to_read, chunk_size)\<close>\<close>
  "extract_loop c env offset_rel bytes_to_read chunk_size bytes_read [] = ([], None)"
| "extract_loop c env offset_rel bytes_to_read chunk_size bytes_read (offset # rest) =
     (let read_size = min chunk_size (bytes_to_read - offset)
      in case ram_read c env (offset_rel + offset) read_size of
           Inl e \<Rightarrow> raise e
         | Inr chunk \<Rightarrow>
             seq [([Ram_Read (offset_rel + offset) read_size,
                    File_Write (OUT_RAW c) chunk], None),
                  progress_line (bytes_read + read_size) bytes_to_read,
                  extract_loop c env offset_rel bytes_to_read chunk_size
                    (bytes_read + read_size) rest])"

definition extract_capture :: "config \<Rightarrow> env \<Rightarrow> int \<Rightarrow> int \<Rightarrow> int \<Rightarrow> step" where
  "extract_capture c env offset_rel bytes_to_read chunk_size =
     extract_loop c env offset_rel bytes_to_read chunk_size 0
       (py_range 0 bytes_to_read chunk_size)"

definition chunks_of :: "step \<Rightarrow> byte list list" where
  \<comment> \<open>the chunks a run has written to the raw file, in order\<close>
  "chunks_of r = concat (map (\<lambda>e. case e of File_Write f b \<Rightarrow> [b] | _ \<Rightarrow> []) (fst r))"

text \<open>
  The spec's description of the chunk sizes: each chunk takes the chunk size or what
  remains, whichever is less, until nothing remains.
\<close>

function spec_chunk_sizes :: "int \<Rightarrow> int \<Rightarrow> int list" where
  "spec_chunk_sizes remaining chunk_size =
     (if 0 < chunk_size \<and> 0 < remaining
      then min chunk_size remaining
             # spec_chunk_sizes (remaining - min chunk_size remaining) chunk_size
      else [])"
  by pat_completeness auto
termination
  by (relation "measure (\<lambda>(remaining, chunk_size). nat remaining)") auto

declare spec_chunk_sizes.simps [simp del]

definition save_capture :: "config \<Rightarrow> env \<Rightarrow> layout \<Rightarrow> step" where
  "save_capture c env l =
     seq [py_print env [S ''Reading captured data from DDR and saving to '', quote,
                        S (OUT_RAW c), quote, S ''...''],
          (if raw_open_ok env
           then (case extract_capture c env (writer_offset_rel l) (true_writer_bytes l)
                        (8 * 1024 * 1024) of
                   (es, r) \<Rightarrow> ([File_Open (OUT_RAW c)] @ es @ [File_Close (OUT_RAW c)], r))
           else raise OSError),
          say (CHR 0x0A # ''Ring-down data saved successfully.'')]"

subsection \<open>Metadata and shutdown (script lines 369--430)\<close>

definition save_metadata :: "config \<Rightarrow> env \<Rightarrow> layout \<Rightarrow> step" where
  "save_metadata c env l =
     seq [py_print env [S ''Writing metadata to '', quote, S (OUT_META c), quote, S ''...''],
          (if meta_open_ok env
           then ([File_Open (OUT_META c),
                  Json_Dump (OUT_META c)
                    \<lparr> md_mode = MODE c,
                      md_excitation_frequency_hz = FREQ_HZ c,
                      md_amplitude_peak_v = AM_PK_V c,
                      md_excitation_time_us = EXCITATION_TIME_US c,
                      md_relaxation_time_us = RELAXATION_TIME_US c,
                      md_sample_rate_hz = SAMPLE_RATE c,
                      md_layout = l,
                      md_raw_output_file = OUT_RAW c,
                      md_json_output_file = OUT_META c,
                      md_timestamp = timestamp env \<rparr>,
                  File_Close (OUT_META c)], None)
           else raise OSError),
          say ''Metadata saved successfully.'']"

definition shutdown :: "config \<Rightarrow> env \<Rightarrow> step" where
  "shutdown c env =
     seq [say ''Resetting FPGA to safe idle state...'',
          write32 c SOFT_RESET_REG 1,
          write32 c RELAY_ENABLED_REG 0,
          write32 c READER_CONTINUOUS_MODE_REG 0,
          write32 c WRITER_CONTINUOUS_MODE_REG 0,
          py_sleep (to_double (1 / 5)),
          ([Mmio_Close (RAM_BASE c), Mmio_Close (AXIL_BASE c)], None),
          say (CHR 0x0A # ''Ring-down acquisition COMPLETE.''),
          py_print env [S ''Raw data saved to:  '', S (OUT_RAW c)],
          py_print env [S ''Metadata saved to:   '', S (OUT_META c)],
          say ''FPGA interface closed and system is safe.'']"

subsection \<open>The whole script\<close>

definition after_layout :: "config \<Rightarrow> env \<Rightarrow> 16 word list \<Rightarrow> layout \<Rightarrow> step" where
  "after_layout c env waveform l =
     seq [write_waveform c (tobytes waveform),
          configure c l,
          run_measurement c env (tobytes (replicate (length waveform) 0)),
          save_capture c env l,
          save_metadata c env l,
          shutdown c env]"

text \<open>
  Script lines 197--257: the layout is computed and reported line by line.  The first
  component is what these lines print, up to the point an exception is raised; the second
  is the layout, or the exception.
\<close>

definition layout_script :: "config \<Rightarrow> nat \<Rightarrow> event list \<times> (error + layout)" where
  "layout_script c n =
     (let samples = int n;
          bytes = pad_waveform (samples * int (SAMPLE_SIZE c));
          generated = [Print [S ''Excitation waveform generated: '', D samples, S '' samples''],
                       Print [S ''Computing RAM layout...'']]
      in case py_floordiv bytes (int (BURST_BYTES c)) of
           Inl e \<Rightarrow> (generated, Inl e)
         | Inr bursts \<Rightarrow>
             let offset = int (RAM_BASE c) + bytes;
                 offset_rel = offset - int (RAM_BASE c);
                 placed = generated @
                   [Print [S ''Waveform occupied'', D bytes, S '' bytes ('', D bursts,
                           S '' bursts).''],
                    Print [S ''Capture region absolute addr : 0x'', X offset],
                    Print [S ''Capture region relative addr : 0x'', X offset_rel]]
             in case relax_count (RELAXATION_TIME_US c) (SAMPLE_RATE c) of
                  Inl e \<Rightarrow> (placed, Inl e)
                | Inr relax \<Rightarrow>
                    let aligned = align_relax relax
                    in case capture_bursts (SAMPLE_SIZE c) (BURST_BYTES c) aligned of
                         Inl e \<Rightarrow> (placed, Inl e)
                       | Inr num_bursts \<Rightarrow>
                           (placed @
                              [Print [S ''Relaxation samples aligned : '', D aligned],
                               Print [S ''Writer bursts              : '', D num_bursts],
                               Print [S ''Capture size (bytes)       : '',
                                      D (capture_bytes (BURST_BYTES c) num_bursts)]],
                            Inr \<lparr> waveform_samples = samples,
                                  waveform_bytes = bytes,
                                  waveform_bursts = bursts,
                                  writer_offset = offset,
                                  writer_offset_rel = offset_rel,
                                  relax_samples = relax,
                                  relax_samples_aligned = aligned,
                                  writer_num_bursts = num_bursts,
                                  true_writer_bytes =
                                    capture_bytes (BURST_BYTES c) num_bursts \<rparr>))"

definition plan_waveform :: "config \<Rightarrow> env \<Rightarrow> 16 word list \<Rightarrow> step" where
  \<comment> \<open>script line 195, the layout, and the rest of the script\<close>
  "plan_waveform c env waveform =
     seq [ram_write c 0 (tobytes waveform),
          (case layout_script c (length waveform) of
             (printed_lines, Inl e) \<Rightarrow> (printed_lines, Some (Raise e))
           | (printed_lines, Inr l) \<Rightarrow>
               seq [(printed_lines, None), after_layout c env waveform l])]"

definition generate :: "config \<Rightarrow> env \<Rightarrow> step" where
  "generate c env =
     seq [say ''Generating excitation waveform...'',
          say ''Generating excitation waveform...'',
          (case sample_count c of
             Inl e \<Rightarrow> raise e
           | Inr N \<Rightarrow> plan_waveform c env (waveform_of env N))]"

definition main :: "config \<Rightarrow> env \<Rightarrow> step" where
  "main c env = seq [startup c env, generate c env]"

section \<open>Facts about the float model\<close>

lemma pow2_powi: "pow2 e = 2 powi e"
  by (simp add: pow2_def power_int_def inverse_eq_divide power_one_over)

lemma pow2_pos: "0 < pow2 e"
  by (simp add: pow2_powi)

lemma pow2_add: "pow2 (a + b) = pow2 a * pow2 b"
  by (simp add: pow2_powi power_int_add)

lemma pow2_mono: "a \<le> b \<Longrightarrow> pow2 a \<le> pow2 b"
  by (simp add: pow2_powi power_int_increasing)

lemma pow2_less_cancel: "pow2 a < pow2 b \<Longrightarrow> a < b"
  using pow2_mono [of b a] by (cases "a < b") auto

lemma quotient_of_pos:
  assumes "0 < x"
  shows "0 < fst (quotient_of x) \<and> 0 < snd (quotient_of x) \<and> x = of_int (fst (quotient_of x)) / of_int (snd (quotient_of x))"
proof -
  obtain n d where q: "quotient_of x = (n, d)" by (cases "quotient_of x")
  have d: "0 < d" using q by (rule quotient_of_denom_pos)
  have x: "x = of_int n / of_int d" using q by (rule quotient_of_div)
  have "0 < n" using assms d x by (simp add: zero_less_divide_iff)
  then show ?thesis using q d x by simp
qed

lemma bitlen_rat_bounds:
  assumes "0 < (n::int)"
  shows "pow2 (bitlen n - 1) \<le> of_int n" "(of_int n :: rat) < pow2 (bitlen n)"
proof -
  have b: "2 ^ nat (bitlen n - 1) \<le> n" "n < 2 ^ nat (bitlen n)"
    using bitlen_bounds [OF assms] by auto
  have ge: "1 \<le> bitlen n" using assms by (simp add: bitlen_alt_def)
  have "(of_int (2 ^ nat (bitlen n - 1)) :: rat) \<le> of_int n"
    using b(1) by (simp only: of_int_le_iff)
  then show "pow2 (bitlen n - 1) \<le> of_int n"
    using ge by (simp add: pow2_def)
  have "(of_int n :: rat) < of_int (2 ^ nat (bitlen n))"
    using b(2) by (simp only: of_int_less_iff)
  then show "(of_int n :: rat) < pow2 (bitlen n)"
    using ge by (simp add: pow2_def)
qed

lemma ilog2_bounds:
  assumes "0 < x"
  shows "pow2 (ilog2 x) \<le> x" "x < pow2 (ilog2 x + 1)"
proof -
  define n where "n = fst (quotient_of x)"
  define d where "d = snd (quotient_of x)"
  define k where "k = bitlen n - bitlen d"
  have nd: "0 < n" "0 < d" "x = of_int n / of_int d"
    using quotient_of_pos [OF assms] by (simp_all add: n_def d_def)
  note bn = bitlen_rat_bounds [OF nd(1)]
  note bd = bitlen_rat_bounds [OF nd(2)]
  have dpos: "(0::rat) < of_int d" using nd(2) by simp
  have lo: "pow2 (k - 1) < x"
  proof -
    have "pow2 (k - 1) * of_int d < pow2 (k - 1) * pow2 (bitlen d)"
      using bd(2) pow2_pos by (simp add: mult_strict_left_mono)
    also have "\<dots> = pow2 (bitlen n - 1)"
      by (simp add: k_def pow2_add [symmetric])
    also have "\<dots> \<le> of_int n" by (rule bn(1))
    finally show ?thesis using dpos by (simp add: nd(3) pos_less_divide_eq)
  qed
  have hi: "x < pow2 (k + 1)"
  proof -
    have "of_int n < pow2 (bitlen n)" by (rule bn(2))
    also have "\<dots> = pow2 (k + 1) * pow2 (bitlen d - 1)"
      by (simp add: k_def pow2_add [symmetric])
    also have "\<dots> \<le> pow2 (k + 1) * of_int d"
      using bd(1) pow2_pos by (simp add: mult_left_mono less_imp_le)
    finally show ?thesis using dpos by (simp add: nd(3) pos_divide_less_eq)
  qed
  have il: "ilog2 x = (if pow2 k \<le> x then k else k - 1)"
    by (simp add: ilog2_def k_def n_def d_def Let_def)
  show "pow2 (ilog2 x) \<le> x"
    using lo by (simp add: il less_imp_le)
  show "x < pow2 (ilog2 x + 1)"
    using hi by (auto simp add: il not_le)
qed

lemma ilog2_eqI:
  assumes "pow2 k \<le> x" "x < pow2 (k + 1)"
  shows "ilog2 x = k"
proof -
  have x: "0 < x" using assms(1) pow2_pos [of k] by simp
  note b = ilog2_bounds [OF x]
  have "pow2 k < pow2 (ilog2 x + 1)" using assms(1) b(2) by simp
  then have 1: "k < ilog2 x + 1" by (rule pow2_less_cancel)
  have "pow2 (ilog2 x) < pow2 (k + 1)" using assms(2) b(1) by simp
  then have 2: "ilog2 x < k + 1" by (rule pow2_less_cancel)
  from 1 2 show ?thesis by simp
qed

lemma rne_eqI:
  assumes "\<bar>z - of_int m\<bar> < 1 / 2"
  shows "rne z = m"
proof -
  have z: "of_int m - 1 / 2 < z" "z < of_int m + 1 / 2" using assms by linarith+
  consider "\<lfloor>z\<rfloor> = m" | "\<lfloor>z\<rfloor> = m - 1"
  proof -
    have "of_int (m - 1) \<le> z" using z(1) by simp
    then have "m - 1 \<le> \<lfloor>z\<rfloor>" by (simp only: le_floor_iff)
    moreover have "z < of_int (m + 1)" using z(2) by simp
    then have "\<lfloor>z\<rfloor> < m + 1" by (simp only: floor_less_iff)
    ultimately show ?thesis using that by linarith
  qed
  then show ?thesis
  proof cases
    case 1
    then show ?thesis using z by (simp add: rne_def Let_def)
  next
    case 2
    then show ?thesis using z by (simp add: rne_def Let_def)
  qed
qed

lemma rne_bound: "\<bar>of_int (rne z) - z\<bar> \<le> 1"
  unfolding rne_def Let_def by (auto simp: abs_le_iff) linarith+


lemma to_double_eqI:
  assumes "pow2 k \<le> \<bar>x\<bar>" "\<bar>x\<bar> < pow2 (k + 1)" "- 1022 \<le> k"
    and "\<bar>x / pow2 (k - 52) - of_int m\<bar> < 1 / 2"
    and "\<bar>of_int m * pow2 (k - 52)\<bar> \<le> max_double"
  shows "to_double x = Fin (of_int m * pow2 (k - 52))"
proof -
  have x: "x \<noteq> 0" using assms(1) pow2_pos [of k] by auto
  have il: "ilog2 \<bar>x\<bar> = k" using assms(1,2) by (rule ilog2_eqI)
  have e: "max (ilog2 \<bar>x\<bar> - 52) (- 1074) = k - 52" using assms(3) il by simp
  have r: "rne (x / pow2 (k - 52)) = m" using assms(4) by (rule rne_eqI)
  show ?thesis using x assms(5) by (simp add: to_double_def e r Let_def abs_le_iff not_less)
qed

lemma to_double_exact:
  assumes "pow2 k \<le> \<bar>x\<bar>" "\<bar>x\<bar> < pow2 (k + 1)" "- 1022 \<le> k"
    and "x = of_int m * pow2 (k - 52)" "\<bar>x\<bar> \<le> max_double"
  shows "to_double x = Fin x"
proof -
  have "x / pow2 (k - 52) = of_int m" using pow2_pos [of "k - 52"] by (simp add: assms(4))
  then have "\<bar>x / pow2 (k - 52) - of_int m\<bar> < 1 / 2" by simp
  from to_double_eqI [OF assms(1,2,3) this] assms(4,5) show ?thesis by simp
qed

lemma to_double_bounded:
  assumes "\<bar>x\<bar> \<le> 2 ^ 1000"
  shows "\<exists>y. to_double x = Fin y \<and> \<bar>y\<bar> \<le> 2 * \<bar>x\<bar> + 1"
proof (cases "x = 0")
  case True
  then show ?thesis by (simp add: to_double_def)
next
  case False
  define e where "e = max (ilog2 \<bar>x\<bar> - 52) (- 1074)"
  define y where "y = of_int (rne (x / pow2 e)) * pow2 e"
  have pe: "0 < pow2 e" by (rule pow2_pos)
  have ax: "0 < \<bar>x\<bar>" using False by simp
  have "\<bar>of_int (rne (x / pow2 e)) - x / pow2 e\<bar> * pow2 e \<le> 1 * pow2 e"
    using rne_bound [of "x / pow2 e"] pe by (intro mult_right_mono) simp_all
  moreover have "\<bar>of_int (rne (x / pow2 e)) - x / pow2 e\<bar> * pow2 e = \<bar>y - x\<bar>"
  proof -
    have "\<bar>of_int (rne (x / pow2 e)) - x / pow2 e\<bar> * pow2 e
        = \<bar>(of_int (rne (x / pow2 e)) - x / pow2 e) * pow2 e\<bar>"
      using pe by (simp add: abs_mult)
    also have "(of_int (rne (x / pow2 e)) - x / pow2 e) * pow2 e = y - x"
      using pe by (simp add: y_def algebra_simps)
    finally show ?thesis .
  qed
  ultimately have d: "\<bar>y - x\<bar> \<le> pow2 e" by simp
  have e1: "pow2 e \<le> \<bar>x\<bar> + 1"
  proof (cases "- 1074 \<le> ilog2 \<bar>x\<bar> - 52")
    case True
    then have "e = ilog2 \<bar>x\<bar> - 52" by (simp add: e_def)
    then have "pow2 e \<le> pow2 (ilog2 \<bar>x\<bar>)" by (simp add: pow2_mono)
    also have "\<dots> \<le> \<bar>x\<bar>" using ilog2_bounds(1) [OF ax] .
    finally show ?thesis by simp
  next
    case False
    then have "e = - 1074" by (simp add: e_def)
    then have "pow2 e \<le> pow2 0" by (simp add: pow2_mono)
    then show ?thesis by (simp add: pow2_def)
  qed
  have yb: "\<bar>y\<bar> \<le> 2 * \<bar>x\<bar> + 1" using d e1 by linarith
  have "2 * \<bar>x\<bar> + 1 \<le> 2 * 2 ^ 1000 + (1::rat)" using assms by simp
  also have "\<dots> \<le> max_double" by (simp add: max_double_def)
  finally have "\<bar>y\<bar> \<le> max_double" using yb by simp
  then have "to_double x = Fin y"
    using False by (simp add: to_double_def e_def [symmetric] y_def [symmetric] Let_def abs_le_iff not_less)
  then show ?thesis using yb by blast
qed

subsection \<open>Evaluations at the values the script uses\<close>

lemma td_1em6: "to_double (1 / 1000000) = Fin (4722366482869645 / 2 ^ 72)"
proof -
  have "to_double (1 / 1000000) = Fin (of_int 4722366482869645 * pow2 (-20 - 52))"
    by (rule to_double_eqI) (simp_all add: pow2_def max_double_def)
  then show ?thesis by (simp add: pow2_def)
qed

lemma td_1em3: "to_double (1 / 1000) = Fin (1152921504606847 / 2 ^ 60)"
proof -
  have "to_double (1 / 1000) = Fin (of_int 4611686018427388 * pow2 (-10 - 52))"
    by (rule to_double_eqI) (simp_all add: pow2_def max_double_def)
  then show ?thesis by (simp add: pow2_def)
qed

lemma td_int_1: "to_double (1) = Fin (1)"
proof -
  have "to_double (1) = Fin (of_int 4503599627370496 * pow2 (0 - 52))"
    by (rule to_double_eqI) (simp_all add: pow2_def max_double_def)
  then show ?thesis by (simp add: pow2_def)
qed

lemma td_int_3000: "to_double (3000) = Fin (3000)"
proof -
  have "to_double (3000) = Fin (of_int 6597069766656000 * pow2 (11 - 52))"
    by (rule to_double_eqI) (simp_all add: pow2_def max_double_def)
  then show ?thesis by (simp add: pow2_def)
qed

lemma td_int_1500000: "to_double (1500000) = Fin (1500000)"
proof -
  have "to_double (1500000) = Fin (of_int 6442450944000000 * pow2 (20 - 52))"
    by (rule to_double_eqI) (simp_all add: pow2_def max_double_def)
  then show ?thesis by (simp add: pow2_def)
qed

lemma td_int_125000000: "to_double (125000000) = Fin (125000000)"
proof -
  have "to_double (125000000) = Fin (of_int 8388608000000000 * pow2 (26 - 52))"
    by (rule to_double_eqI) (simp_all add: pow2_def max_double_def)
  then show ?thesis by (simp add: pow2_def)
qed

lemma td_prod_3000: "to_double (3000 * (4722366482869645 / 2 ^ 72)) = Fin (3458764513820541 / 2 ^ 60)"
proof -
  have "to_double (3000 * (4722366482869645 / 2 ^ 72)) = Fin (of_int 6917529027641082 * pow2 (-9 - 52))"
    by (rule to_double_eqI) (simp_all add: pow2_def max_double_def)
  then show ?thesis by (simp add: pow2_def)
qed

lemma td_prod_3000_rate: "to_double (3458764513820541 / 2 ^ 60 * 125000000) = Fin (375000)"
proof -
  have "to_double (3458764513820541 / 2 ^ 60 * 125000000) = Fin (of_int 6442450944000000 * pow2 (18 - 52))"
    by (rule to_double_eqI) (simp_all add: pow2_def max_double_def)
  then show ?thesis by (simp add: pow2_def)
qed

lemma td_prod_1: "to_double (1 * (4722366482869645 / 2 ^ 72)) = Fin (4722366482869645 / 2 ^ 72)"
proof -
  have "to_double (1 * (4722366482869645 / 2 ^ 72)) = Fin (of_int 4722366482869645 * pow2 (-20 - 52))"
    by (rule to_double_eqI) (simp_all add: pow2_def max_double_def)
  then show ?thesis by (simp add: pow2_def)
qed

lemma td_prod_1_rate: "to_double (4722366482869645 / 2 ^ 72 * 1500000) = Fin (3 / 2)"
proof -
  have "to_double (4722366482869645 / 2 ^ 72 * 1500000) = Fin (of_int 6755399441055744 * pow2 (0 - 52))"
    by (rule to_double_eqI) (simp_all add: pow2_def max_double_def)
  then show ?thesis by (simp add: pow2_def)
qed

lemma td_duration_rate: "to_double (1152921504606847 / 2 ^ 60 * 125000000) = Fin (125000)"
proof -
  have "to_double (1152921504606847 / 2 ^ 60 * 125000000) = Fin (of_int 8589934592000000 * pow2 (16 - 52))"
    by (rule to_double_eqI) (simp_all add: pow2_def max_double_def)
  then show ?thesis by (simp add: pow2_def)
qed

lemma relax_product_shipped: "relax_product 3000 125000000 = Inr (Fin 375000)"
  unfolding relax_product_def mul_int_float_def mul_float_int_def float_of_int_def lit_1em6_def
  by (simp only: of_int_numeral td_1em6 td_int_3000 td_int_125000000 td_prod_3000
      td_prod_3000_rate fmul.simps sum.case pyfloat.case)

lemma relax_count_shipped: "relax_count 3000 125000000 = Inr 375000"
  by (simp add: relax_count_def relax_product_shipped)

lemma relax_product_1_1500000: "relax_product 1 1500000 = Inr (Fin (3 / 2))"
  unfolding relax_product_def mul_int_float_def mul_float_int_def float_of_int_def lit_1em6_def
  by (simp only: of_int_numeral of_int_1 td_1em6 td_int_1 td_int_1500000 td_prod_1
      td_prod_1_rate fmul.simps sum.case pyfloat.case)

lemma relax_count_1_1500000: "relax_count 1 1500000 = Inr 1"
proof -
  have "\<lfloor>3 / 2 :: rat\<rfloor> = 1" by (rule floor_unique) simp_all
  then show ?thesis by (simp add: relax_count_def relax_product_1_1500000)
qed


lemma float_of_int_bounded:
  assumes "\<bar>i\<bar> \<le> 2 ^ 64"
  shows "\<exists>y. float_of_int i = Inr (Fin y) \<and> \<bar>y\<bar> \<le> 2 ^ 66"
proof -
  have a: "\<bar>of_int i :: rat\<bar> \<le> 2 ^ 64"
  proof -
    have "(of_int \<bar>i\<bar> :: rat) \<le> of_int (2 ^ 64)" using assms by (simp only: of_int_le_iff)
    then show ?thesis by simp
  qed
  have "(2::rat) ^ 64 \<le> 2 ^ 1000" by (rule power_increasing) simp_all
  with a have "\<bar>of_int i :: rat\<bar> \<le> 2 ^ 1000" by linarith
  from to_double_bounded [OF this]
  obtain y where y: "to_double (of_int i) = Fin y" "\<bar>y\<bar> \<le> 2 * \<bar>of_int i :: rat\<bar> + 1" by blast
  have "\<bar>y\<bar> \<le> 2 ^ 66" using y(2) a by simp
  with y(1) show ?thesis by (simp add: float_of_int_def)
qed

lemma relax_product_total:
  assumes "\<bar>us\<bar> \<le> 2 ^ 64" and "\<bar>rate\<bar> \<le> 2 ^ 64"
  shows "\<exists>q. relax_product us rate = Inr (Fin q)"
proof -
  from float_of_int_bounded [OF assms(1)]
  obtain a where a: "float_of_int us = Inr (Fin a)" "\<bar>a\<bar> \<le> 2 ^ 66" by blast
  from float_of_int_bounded [OF assms(2)]
  obtain g where g: "float_of_int rate = Inr (Fin g)" "\<bar>g\<bar> \<le> 2 ^ 66" by blast
  define b :: rat where "b = 4722366482869645 / 2 ^ 72"
  have lit: "lit_1em6 = Fin b" by (simp only: lit_1em6_def td_1em6 b_def)
  have b: "\<bar>b\<bar> \<le> 1" by (simp add: b_def)
  have ab: "\<bar>a * b\<bar> \<le> 2 ^ 66"
  proof -
    have "\<bar>a\<bar> * \<bar>b\<bar> \<le> 2 ^ 66 * 1" using a(2) b by (intro mult_mono) simp_all
    then show ?thesis by (simp add: abs_mult)
  qed
  have "(2::rat) ^ 66 \<le> 2 ^ 1000" by (rule power_increasing) simp_all
  with ab have "\<bar>a * b\<bar> \<le> 2 ^ 1000" by linarith
  from to_double_bounded [OF this]
  obtain p where p: "to_double (a * b) = Fin p" "\<bar>p\<bar> \<le> 2 * \<bar>a * b\<bar> + 1" by blast
  have p2: "\<bar>p\<bar> \<le> 2 ^ 68" using p(2) ab by simp
  have pg: "\<bar>p * g\<bar> \<le> 2 ^ 134"
  proof -
    have "\<bar>p\<bar> * \<bar>g\<bar> \<le> 2 ^ 68 * 2 ^ 66" using p2 g(2) by (intro mult_mono) simp_all
    then show ?thesis by (simp add: abs_mult)
  qed
  have "(2::rat) ^ 134 \<le> 2 ^ 1000" by (rule power_increasing) simp_all
  with pg have "\<bar>p * g\<bar> \<le> 2 ^ 1000" by linarith
  from to_double_bounded [OF this]
  obtain q where q: "to_double (p * g) = Fin q" by blast
  show ?thesis
    by (simp add: relax_product_def mul_int_float_def mul_float_int_def a(1) g(1) lit p(1) q)
qed

lemma relax_count_total:
  assumes "\<bar>us\<bar> \<le> 2 ^ 64" and "\<bar>rate\<bar> \<le> 2 ^ 64"
  shows "\<exists>r. relax_count us rate = Inr r"
  using relax_product_total [OF assms] by (auto simp: relax_count_def)

section \<open>Properties of the layout arithmetic\<close>

lemma align_relax_dvd: "64 dvd align_relax r"
proof -
  have "(r + (- r) mod 64) mod 64 = (r + (- r)) mod 64"
    by (rule mod_add_right_eq)
  then show ?thesis by (simp add: align_relax_def mod_eq_0_iff_dvd)
qed

lemma align_relax_bounds: "r \<le> align_relax r \<and> align_relax r < r + 64"
  by (simp add: align_relax_def)

lemma shipped_fields:
  "RELAXATION_TIME_US shipped = 3000" "SAMPLE_RATE shipped = 125000000"
  "RAM_BASE shipped = 16777216" "SAMPLE_SIZE shipped = 2" "BURST_BYTES shipped = 128"
  "DURATION_S shipped = to_double (1 / 1000)" "RAM_SIZE shipped = 4194304"
  by (simp_all add: shipped_def)

lemma sample_count_shipped: "sample_count shipped = Inr 125000"
  unfolding sample_count_def mul_float_int_def float_of_int_def shipped_fields
  by (simp only: of_int_numeral td_1em3 td_int_125000000 td_duration_rate fmul.simps
      sum.case pyfloat.case py_int.simps) simp

lemma compute_layout_shipped:
  "compute_layout shipped 125000 =
     Inr \<lparr> waveform_samples = 125000, waveform_bytes = 250048, waveform_bursts = 1953,
           writer_offset = 17027264, writer_offset_rel = 250048, relax_samples = 375000,
           relax_samples_aligned = 375040, writer_num_bursts = 5860,
           true_writer_bytes = 750080 \<rparr>"
  by (simp add: compute_layout_def shipped_fields relax_count_shipped pad_waveform_def
      py_floordiv_def align_relax_def capture_bursts_def capture_bytes_def)

lemma compute_layout_shipped_0:
  "compute_layout shipped 0 =
     Inr \<lparr> waveform_samples = 0, waveform_bytes = 0, waveform_bursts = 0,
           writer_offset = 16777216, writer_offset_rel = 0, relax_samples = 375000,
           relax_samples_aligned = 375040, writer_num_bursts = 5860,
           true_writer_bytes = 750080 \<rparr>"
  by (simp add: compute_layout_def shipped_fields relax_count_shipped pad_waveform_def
      py_floordiv_def align_relax_def capture_bursts_def capture_bytes_def)

lemma compute_layout_total:
  assumes "BURST_BYTES c \<noteq> 0"
    and "\<bar>RELAXATION_TIME_US c\<bar> \<le> 2 ^ 64" and "\<bar>SAMPLE_RATE c\<bar> \<le> 2 ^ 64"
  shows "\<exists>l. compute_layout c n = Inr l"
proof -
  from relax_count_total [OF assms(2,3)]
  obtain r where "relax_count (RELAXATION_TIME_US c) (SAMPLE_RATE c) = Inr r" by blast
  then show ?thesis
    using assms(1) by (simp add: compute_layout_def py_floordiv_def capture_bursts_def Let_def)
qed

lemma pad_waveform_dvd: "64 dvd pad_waveform b"
proof -
  have "(b + (- b) mod 64) mod 64 = (b + (- b)) mod 64"
    by (rule mod_add_right_eq)
  then have "64 dvd b + (- b) mod 64" by (simp add: mod_eq_0_iff_dvd)
  moreover have "(- b) mod 64 = 0 \<Longrightarrow> 64 dvd b" by (simp add: mod_eq_0_iff_dvd)
  ultimately show ?thesis by (auto simp: pad_waveform_def Let_def)
qed

lemma compute_layout_fields:
  assumes "compute_layout c n = Inr l"
  shows "waveform_samples l = int n"
    and "waveform_bytes l = pad_waveform (int n * int (SAMPLE_SIZE c))"
    and "waveform_bursts l = waveform_bytes l div int (BURST_BYTES c)"
    and "writer_offset l = int (RAM_BASE c) + waveform_bytes l"
    and "writer_offset_rel l = waveform_bytes l"
    and "relax_count (RELAXATION_TIME_US c) (SAMPLE_RATE c) = Inr (relax_samples l)"
    and "relax_samples_aligned l = align_relax (relax_samples l)"
    and "writer_num_bursts l = relax_samples_aligned l * int (SAMPLE_SIZE c) div int (BURST_BYTES c)"
    and "true_writer_bytes l = writer_num_bursts l * int (BURST_BYTES c)"
    and "BURST_BYTES c \<noteq> 0"
  using assms
  by (auto simp: compute_layout_def py_floordiv_def capture_bursts_def capture_bytes_def Let_def
      split: sum.splits if_splits)

lemma py_int_truncates:
  assumes "py_int (Fin x) = Inr r"
  shows "\<bar>of_int r\<bar> \<le> \<bar>x\<bar> \<and> \<bar>x\<bar> < \<bar>of_int r\<bar> + 1 \<and> 0 \<le> of_int r * x"
proof (cases "0 \<le> x")
  case True
  then have r: "r = \<lfloor>x\<rfloor>" using assms by simp
  have "0 \<le> r" using True r by simp
  then have "0 \<le> (of_int r :: rat)" by simp
  moreover have "of_int r \<le> x" "x < of_int r + 1" unfolding r by linarith+
  ultimately show ?thesis using True by simp
next
  case False
  then have r: "r = \<lceil>x\<rceil>" using assms by simp
  have "r \<le> 0" using False r by (simp add: ceiling_le_iff)
  then have r0: "(of_int r :: rat) \<le> 0" by simp
  moreover have "x \<le> of_int r" "of_int r < x + 1" unfolding r by linarith+
  moreover have "0 \<le> of_int r * x" using r0 False by (simp add: mult_nonpos_nonpos)
  ultimately show ?thesis using False by simp
qed

lemma relax_count_truncates:
  assumes "relax_count us rate = Inr r"
  shows "\<exists>x. relax_product us rate = Inr (Fin x)
           \<and> \<bar>of_int r\<bar> \<le> \<bar>x\<bar> \<and> \<bar>x\<bar> < \<bar>of_int r\<bar> + 1 \<and> 0 \<le> of_int r * x"
proof -
  from assms obtain q where q: "relax_product us rate = Inr q" "py_int q = Inr r"
    by (auto simp: relax_count_def split: sum.splits)
  from q(2) obtain x where x: "q = Fin x" by (cases q) simp_all
  show ?thesis using py_int_truncates [of x r] q x by simp
qed


lemma layout_alignment_facts:
  assumes "compute_layout c n = Inr l"
  shows "64 dvd waveform_bytes l"
    and "writer_offset l = int (RAM_BASE c) + waveform_bytes l"
    and "writer_offset_rel l = waveform_bytes l"
    and "int (BURST_BYTES c) dvd true_writer_bytes l"
  using compute_layout_fields [OF assms] by (simp_all add: pad_waveform_dvd)

text \<open>
  Claim C1.  The alignment invariant does not hold for the shipped configuration.  The
  script pads the waveform \<^emph>\<open>byte\<close> count to a multiple of 64 (line 208), although the burst
  size is 128 bytes: the 125000 samples that \<open>int(DURATION_S * SAMPLE_RATE)\<close> yields occupy
  250000 bytes, padded to 250048, which is not a multiple of 128.  So the capture offsets
  are not burst-aligned either, the floor division of line 223 is not exact, and the 1953
  bursts it yields cover 249984 bytes, fewer than the waveform itself.
\<close>

theorem waveform_padding_misses_burst_alignment:
  "sample_count shipped = Inr 125000 \<and>
   (\<exists>l. compute_layout shipped 125000 = Inr l
      \<and> waveform_bytes l = 250048
      \<and> \<not> 128 dvd waveform_bytes l
      \<and> \<not> 128 dvd writer_offset_rel l
      \<and> \<not> 128 dvd writer_offset l
      \<and> waveform_bursts l * int (BURST_BYTES shipped) = 249984
      \<and> waveform_bursts l * int (BURST_BYTES shipped) \<noteq> waveform_bytes l
      \<and> waveform_bursts l * int (BURST_BYTES shipped) < waveform_samples l * int (SAMPLE_SIZE shipped))"
  by (simp add: sample_count_shipped compute_layout_shipped shipped_fields)

text \<open>
  Claim C2, the claim as worded.  For one microsecond at 1.5 MHz the product is exactly
  1.5: the script's \<open>int(...)\<close> gives 1 where the ceiling gives 2.
\<close>

theorem relax_count_not_ceiling:
  "relax_count 1 1500000 = Inr 1 \<and> spec_relax_samples 1 1500000 = 2"
proof -
  have "\<lceil>3 / 2 :: rat\<rceil> = 2" by (rule ceiling_unique) simp_all
  then show ?thesis by (simp add: relax_count_1_1500000 spec_relax_samples_def)
qed

text \<open>
  Claim C2, amended.  The raw relax-sample count of a layout is the double-precision
  product \<open>(RELAXATION_TIME_US * 1e-6) * SAMPLE_RATE\<close> truncated towards zero: its magnitude
  is the integer part of the product's magnitude and its sign never opposes the product's.
  The aligned count is the least multiple of 64 that is not below the raw count.  For
  3000 microseconds at 125 MHz with 2-byte samples and 128-byte bursts the raw count is
  375000, the aligned count 375040, the capture 750080 bytes in 5860 bursts.
\<close>

theorem relax_samples_truncated_then_aligned:
  assumes "compute_layout c n = Inr l"
  shows "(\<exists>x. relax_product (RELAXATION_TIME_US c) (SAMPLE_RATE c) = Inr (Fin x)
            \<and> \<bar>of_int (relax_samples l)\<bar> \<le> \<bar>x\<bar>
            \<and> \<bar>x\<bar> < \<bar>of_int (relax_samples l)\<bar> + 1
            \<and> 0 \<le> of_int (relax_samples l) * x)
       \<and> 64 dvd relax_samples_aligned l
       \<and> relax_samples l \<le> relax_samples_aligned l
       \<and> relax_samples_aligned l < relax_samples l + 64
       \<and> (RELAXATION_TIME_US c = 3000 \<and> SAMPLE_RATE c = 125000000
            \<and> SAMPLE_SIZE c = 2 \<and> BURST_BYTES c = 128
          \<longrightarrow> relax_samples l = 375000 \<and> relax_samples_aligned l = 375040
              \<and> true_writer_bytes l = 750080 \<and> writer_num_bursts l = 5860)"
proof -
  note f = compute_layout_fields [OF assms]
  have 1: "\<exists>x. relax_product (RELAXATION_TIME_US c) (SAMPLE_RATE c) = Inr (Fin x)
            \<and> \<bar>of_int (relax_samples l)\<bar> \<le> \<bar>x\<bar>
            \<and> \<bar>x\<bar> < \<bar>of_int (relax_samples l)\<bar> + 1
            \<and> 0 \<le> of_int (relax_samples l) * x"
    by (rule relax_count_truncates [OF f(6)])
  have 2: "64 dvd relax_samples_aligned l"
    unfolding f(7) by (rule align_relax_dvd)
  have 3: "relax_samples l \<le> relax_samples_aligned l \<and> relax_samples_aligned l < relax_samples l + 64"
    unfolding f(7) by (rule align_relax_bounds)
  have 4: "relax_samples l = 375000 \<and> relax_samples_aligned l = 375040
              \<and> true_writer_bytes l = 750080 \<and> writer_num_bursts l = 5860"
    if h: "RELAXATION_TIME_US c = 3000 \<and> SAMPLE_RATE c = 125000000
            \<and> SAMPLE_SIZE c = 2 \<and> BURST_BYTES c = 128"
  proof -
    have r: "relax_samples l = 375000"
      using f(6) h by (simp add: relax_count_shipped)
    have a: "relax_samples_aligned l = 375040"
      by (simp add: f(7) r align_relax_def)
    have b: "writer_num_bursts l = 5860"
      using h by (simp add: f(8) a)
    have "true_writer_bytes l = 750080"
      using h by (simp add: f(9) b)
    with r a b show ?thesis by simp
  qed
  from 1 2 3 4 show ?thesis by blast
qed

theorem relax_samples_truncated_then_aligned_witness:
  "\<exists>l. compute_layout shipped 125000 = Inr l
      \<and> RELAXATION_TIME_US shipped = 3000 \<and> SAMPLE_RATE shipped = 125000000
      \<and> SAMPLE_SIZE shipped = 2 \<and> BURST_BYTES shipped = 128
      \<and> (\<exists>x. relax_product 3000 125000000 = Inr (Fin x)
            \<and> \<bar>of_int (relax_samples l)\<bar> \<le> \<bar>x\<bar>
            \<and> \<bar>x\<bar> < \<bar>of_int (relax_samples l)\<bar> + 1
            \<and> 0 \<le> of_int (relax_samples l) * x)
      \<and> 64 dvd relax_samples_aligned l
      \<and> relax_samples l = 375000 \<and> relax_samples_aligned l = 375040
      \<and> true_writer_bytes l = 750080 \<and> writer_num_bursts l = 5860"
  using relax_samples_truncated_then_aligned [OF compute_layout_shipped]
  by (simp add: compute_layout_shipped shipped_fields)

text \<open>
  Claim C3, the claim as worded.  With an empty waveform the layout computation of the
  shipped configuration returns a layout; nothing is rejected.
\<close>

theorem empty_waveform_layout_succeeds:
  "compute_layout shipped 0 =
     Inr \<lparr> waveform_samples = 0, waveform_bytes = 0, waveform_bursts = 0,
           writer_offset = 16777216, writer_offset_rel = 0, relax_samples = 375000,
           relax_samples_aligned = 375040, writer_num_bursts = 5860,
           true_writer_bytes = 750080 \<rparr>"
  by (rule compute_layout_shipped_0)

text \<open>
  Claim C3, amended.  The layout computation checks none of its inputs.  Whenever the burst
  size is not zero and the relaxation time and the sample rate are at most \<open>2^64\<close> in
  magnitude, it returns a layout: for every waveform sample count (zero included), for
  every sign of the sample rate, and whatever the size of the RAM region.
\<close>

theorem layout_never_rejects:
  assumes "BURST_BYTES c \<noteq> 0"
    and "\<bar>RELAXATION_TIME_US c\<bar> \<le> 2 ^ 64" and "\<bar>SAMPLE_RATE c\<bar> \<le> 2 ^ 64"
  shows "\<exists>l. compute_layout c n = Inr l"
  by (rule compute_layout_total [OF assms])

theorem layout_never_rejects_witness:
  "BURST_BYTES (shipped \<lparr> SAMPLE_RATE := - 125000000, RAM_SIZE := 0 \<rparr>) \<noteq> 0
   \<and> \<bar>RELAXATION_TIME_US (shipped \<lparr> SAMPLE_RATE := - 125000000, RAM_SIZE := 0 \<rparr>)\<bar> \<le> 2 ^ 64
   \<and> \<bar>SAMPLE_RATE (shipped \<lparr> SAMPLE_RATE := - 125000000, RAM_SIZE := 0 \<rparr>)\<bar> \<le> 2 ^ 64
   \<and> (\<exists>l. compute_layout (shipped \<lparr> SAMPLE_RATE := - 125000000, RAM_SIZE := 0 \<rparr>) 0 = Inr l)"
  using layout_never_rejects [of "shipped \<lparr> SAMPLE_RATE := - 125000000, RAM_SIZE := 0 \<rparr>" 0]
  by (simp add: shipped_fields)

lemma compute_layout_frame:
  assumes "SAMPLE_SIZE c1 = SAMPLE_SIZE c2" and "BURST_BYTES c1 = BURST_BYTES c2"
    and "RELAXATION_TIME_US c1 = RELAXATION_TIME_US c2" and "SAMPLE_RATE c1 = SAMPLE_RATE c2"
    and "RAM_BASE c1 = RAM_BASE c2"
  shows "compute_layout c1 n = compute_layout c2 n"
  unfolding compute_layout_def assms by (rule refl)

text \<open>
  Claim C10.  With \<open>SAMPLE_SIZE = 2\<close> and \<open>BURST_BYTES = 128\<close>, for every non-negative
  relax-sample count the floor division by the burst size loses nothing: the burst count
  times 128 and the capture byte count both equal the 64-aligned sample count times 2.
\<close>

theorem capture_round_down_noop:
  "0 \<le> relax \<Longrightarrow>
     (\<exists>nb. capture_bursts 2 128 (align_relax relax) = Inr nb
        \<and> capture_bytes 128 nb = align_relax relax * 2
        \<and> nb * 128 = align_relax relax * 2)"
proof -
  obtain k where k: "align_relax relax = 64 * k"
    using align_relax_dvd [of relax] by (auto simp: dvd_def)
  show ?thesis
    by (simp add: capture_bursts_def capture_bytes_def py_floordiv_def k)
qed

theorem capture_round_down_noop_witness:
  "(0::int) \<le> 375000 \<and>
     (\<exists>nb. capture_bursts 2 128 (align_relax 375000) = Inr nb
        \<and> capture_bytes 128 nb = align_relax 375000 * 2
        \<and> nb * 128 = align_relax 375000 * 2)"
  using capture_round_down_noop [of 375000] by simp

section \<open>The completion waiter\<close>

lemma sleep_error_accepts:
  assumes "0 \<le> x" and "x \<le> 2 ^ 31"
  shows "sleep_error (Fin x) = None"
proof -
  have b: "\<bar>x * 1000000000\<bar> \<le> 2 ^ 31 * 1000000000"
    using assms by simp
  have "(2::rat) ^ 31 * 1000000000 \<le> 2 ^ 1000" by simp
  with b have "\<bar>x * 1000000000\<bar> \<le> 2 ^ 1000" by linarith
  from to_double_bounded [OF this]
  obtain y where y: "to_double (x * 1000000000) = Fin y"
    "\<bar>y\<bar> \<le> 2 * \<bar>x * 1000000000\<bar> + 1" by blast
  have "\<bar>y\<bar> < 2 ^ 63" using y(2) b by simp
  then have "\<not> (y < - (2 ^ 63) \<or> 2 ^ 63 \<le> y)" by linarith
  then show ?thesis using assms(1) y(1) by (simp add: sleep_error_def)
qed

lemma sleep_error_negative:
  assumes "x < 0" and "- (2 ^ 31) \<le> x"
  shows "sleep_error (Fin x) = Some ValueError"
proof -
  have b: "\<bar>x * 1000000000\<bar> \<le> 2 ^ 31 * 1000000000"
    using assms by simp
  have "(2::rat) ^ 31 * 1000000000 \<le> 2 ^ 1000" by simp
  with b have "\<bar>x * 1000000000\<bar> \<le> 2 ^ 1000" by linarith
  from to_double_bounded [OF this]
  obtain y where y: "to_double (x * 1000000000) = Fin y"
    "\<bar>y\<bar> \<le> 2 * \<bar>x * 1000000000\<bar> + 1" by blast
  have "\<bar>y\<bar> < 2 ^ 63" using y(2) b by simp
  then have "\<not> (y < - (2 ^ 63) \<or> 2 ^ 63 \<le> y)" by linarith
  then show ?thesis using assms(1) y(1) by (simp add: sleep_error_def)
qed

lemma sleep_error_nan: "sleep_error NaN = Some ValueError"
  by (simp add: sleep_error_def)

lemma wait_done_keeps_waiting:
  assumes "\<forall>q \<in> set ps. \<not> both_done q \<and> \<not> timed_out T q"
    and "sleep_error d = None"
  shows "wait_done T d ps = (None, concat (replicate (length ps) (poll_reads @ [Sleep d])))"
  using assms by (induction ps) (auto simp: Let_def)

lemma wait_done_returns_iff:
  assumes "sleep_error d = None"
  shows "(\<exists>r. fst (wait_done T d ps) = Some r) \<longleftrightarrow> (\<exists>p \<in> set ps. both_done p \<or> timed_out T p)"
  using assms by (induction ps) (auto simp: Let_def split: prod.splits)

lemma wait_done_stops_at:
  assumes "\<forall>q \<in> set before. \<not> both_done q \<and> \<not> timed_out T q"
    and "both_done p \<or> timed_out T p"
    and "sleep_error d = None"
  shows "wait_done T d (before @ p # after) =
           (Some (if both_done p
                  then Inr (uint (write_ptr_val p), uint (read_ptr_val p))
                  else Inl (TimeoutError (uint (write_ptr_val p)) (uint (read_ptr_val p)))),
            concat (replicate (length before) (poll_reads @ [Sleep d])) @ poll_reads)"
  using assms by (induction before) (auto simp: Let_def)

lemma wait_done_sleep_raises:
  assumes "\<not> both_done p" and "\<not> timed_out T p" and "sleep_error d = Some e"
  shows "wait_done T d (p # ps) = (Some (Inl e), poll_reads)"
  using assms by (simp add: Let_def)

text \<open>
  Claim C4, the claim as worded.  With a timeout of 30 seconds, let the first pass, one
  second in, find the flags not both set, and the second, 99 seconds in, find both set.
  The flags have not been seen set within the timeout, yet \<open>wait_done\<close> returns the pointers
  of the second pass and raises nothing: the loop tests the flags before it tests the
  clock.
\<close>

theorem wait_done_returns_after_timeout:
  "wait_done 30 (Fin (1 / 16))
     [\<lparr> writer_done_val = 1, reader_done_val = 0, write_ptr_val = 5, read_ptr_val = 6,
        elapsed = 1 \<rparr>,
      \<lparr> writer_done_val = 1, reader_done_val = 1, write_ptr_val = 7, read_ptr_val = 8,
        elapsed = 99 \<rparr>]
     = (Some (Inr (7, 8)), poll_reads @ Sleep (Fin (1 / 16)) # poll_reads)
   \<and> spec_wait_done 30
     [\<lparr> writer_done_val = 1, reader_done_val = 0, write_ptr_val = 5, read_ptr_val = 6,
        elapsed = 1 \<rparr>,
      \<lparr> writer_done_val = 1, reader_done_val = 1, write_ptr_val = 7, read_ptr_val = 8,
        elapsed = 99 \<rparr>]
     = Some (Inl (TimeoutError 7 8))"
proof -
  have "sleep_error (Fin (1 / 16)) = None"
    by (rule sleep_error_accepts) simp_all
  then show ?thesis
    by (simp add: both_done_def timed_out_def Let_def)
qed

text \<open>
  Claim C4, amended.  Let the poll interval be a float between 0 and \<open>2^31\<close> seconds.  Let the
  passes before pass \<open>p\<close> all find the flags not both set and the timeout not exceeded, and
  let \<open>p\<close> find both flags set or the timeout exceeded.  Then \<open>wait_done\<close> stops at \<open>p\<close>,
  whatever would come after.  If \<open>p\<close> finds both flags set it returns the write and read
  pointers read in \<open>p\<close> itself, also when \<open>p\<close> comes after the timeout; otherwise it raises
  \<open>TimeoutError\<close> with the pointers read in \<open>p\<close>, the last ones read.  Every pass up to and
  including \<open>p\<close> has read the four registers, the two pointer registers among them, and
  every pass before \<open>p\<close> was followed by a pause of the poll interval.
\<close>

theorem wait_done_first_completion:
  assumes "\<forall>q \<in> set before. \<not> both_done q \<and> \<not> timed_out T q"
    and "both_done p \<or> timed_out T p"
    and "0 \<le> d" and "d \<le> 2 ^ 31"
  shows "wait_done T (Fin d) (before @ p # after) =
           (Some (if both_done p
                  then Inr (uint (write_ptr_val p), uint (read_ptr_val p))
                  else Inl (TimeoutError (uint (write_ptr_val p)) (uint (read_ptr_val p)))),
            concat (replicate (length before) (poll_reads @ [Sleep (Fin d)])) @ poll_reads)"
  by (rule wait_done_stops_at [OF assms(1,2) sleep_error_accepts [OF assms(3,4)]])

theorem wait_done_first_completion_witness:
  "\<not> both_done \<lparr> writer_done_val = 1, reader_done_val = 0, write_ptr_val = 16,
                 read_ptr_val = 32, elapsed = 1 \<rparr>
   \<and> \<not> timed_out 30 \<lparr> writer_done_val = 1, reader_done_val = 0, write_ptr_val = 16,
                       read_ptr_val = 32, elapsed = 1 \<rparr>
   \<and> (0 :: rat) \<le> 1 / 16 \<and> (1 / 16 :: rat) \<le> 2 ^ 31
   \<and> both_done \<lparr> writer_done_val = 3, reader_done_val = 5, write_ptr_val = 64,
                 read_ptr_val = 128, elapsed = 99 \<rparr>
   \<and> wait_done 30 (Fin (1 / 16))
       ([\<lparr> writer_done_val = 1, reader_done_val = 0, write_ptr_val = 16,
           read_ptr_val = 32, elapsed = 1 \<rparr>]
        @ \<lparr> writer_done_val = 3, reader_done_val = 5, write_ptr_val = 64,
            read_ptr_val = 128, elapsed = 99 \<rparr>
        # [\<lparr> writer_done_val = 1, reader_done_val = 1, write_ptr_val = 7,
             read_ptr_val = 9, elapsed = 100 \<rparr>])
     = (Some (Inr (64, 128)), poll_reads @ Sleep (Fin (1 / 16)) # poll_reads)
   \<and> \<not> both_done \<lparr> writer_done_val = 0, reader_done_val = 1, write_ptr_val = 64,
                   read_ptr_val = 128, elapsed = 31 \<rparr>
   \<and> timed_out 30 \<lparr> writer_done_val = 0, reader_done_val = 1, write_ptr_val = 64,
                     read_ptr_val = 128, elapsed = 31 \<rparr>
   \<and> wait_done 30 (Fin (1 / 16))
       ([\<lparr> writer_done_val = 1, reader_done_val = 0, write_ptr_val = 16,
           read_ptr_val = 32, elapsed = 1 \<rparr>]
        @ \<lparr> writer_done_val = 0, reader_done_val = 1, write_ptr_val = 64,
            read_ptr_val = 128, elapsed = 31 \<rparr>
        # [\<lparr> writer_done_val = 1, reader_done_val = 1, write_ptr_val = 7,
             read_ptr_val = 9, elapsed = 32 \<rparr>])
     = (Some (Inl (TimeoutError 64 128)), poll_reads @ Sleep (Fin (1 / 16)) # poll_reads)"
  using wait_done_first_completion [of
      "[\<lparr> writer_done_val = 1, reader_done_val = 0, write_ptr_val = 16,
           read_ptr_val = 32, elapsed = 1 \<rparr>]" 30
      "\<lparr> writer_done_val = 3, reader_done_val = 5, write_ptr_val = 64,
            read_ptr_val = 128, elapsed = 99 \<rparr>" "1 / 16"
      "[\<lparr> writer_done_val = 1, reader_done_val = 1, write_ptr_val = 7,
             read_ptr_val = 9, elapsed = 100 \<rparr>]"]
    wait_done_first_completion [of
      "[\<lparr> writer_done_val = 1, reader_done_val = 0, write_ptr_val = 16,
           read_ptr_val = 32, elapsed = 1 \<rparr>]" 30
      "\<lparr> writer_done_val = 0, reader_done_val = 1, write_ptr_val = 64,
            read_ptr_val = 128, elapsed = 31 \<rparr>" "1 / 16"
      "[\<lparr> writer_done_val = 1, reader_done_val = 1, write_ptr_val = 7,
             read_ptr_val = 9, elapsed = 32 \<rparr>]"]
  by (simp add: both_done_def timed_out_def)

section \<open>Reading the capture back\<close>

lemma py_truediv_ok:
  assumes "b \<noteq> 0" and "\<bar>a\<bar> \<le> 2 ^ 1000"
  shows "\<exists>q. py_truediv a b = Inr (Fin q)"
proof -
  have b1: "1 \<le> \<bar>of_int b :: rat\<bar>"
  proof -
    have "1 \<le> \<bar>b\<bar>" using assms(1) by simp
    then have "(of_int 1 :: rat) \<le> of_int \<bar>b\<bar>" by (simp only: of_int_le_iff)
    then show ?thesis by simp
  qed
  have a1: "\<bar>of_int a :: rat\<bar> \<le> 2 ^ 1000"
  proof -
    have "(of_int \<bar>a\<bar> :: rat) \<le> of_int (2 ^ 1000)" using assms(2) by (simp only: of_int_le_iff)
    then show ?thesis by simp
  qed
  have "\<bar>of_int a / of_int b :: rat\<bar> = \<bar>of_int a\<bar> / \<bar>of_int b\<bar>" by (simp add: abs_divide)
  also have "\<dots> \<le> \<bar>of_int a\<bar> / 1"
    using b1 by (intro divide_left_mono) simp_all
  finally have "\<bar>of_int a / of_int b :: rat\<bar> \<le> 2 ^ 1000" using a1 by simp
  from to_double_bounded [OF this]
  obtain y where "to_double (of_int a / of_int b) = Fin y" by blast
  then show ?thesis using assms(1) by (simp add: py_truediv_def)
qed

lemma progress_line_ok:
  assumes "n \<noteq> 0" and "\<bar>a\<bar> \<le> 2 ^ 1000"
  shows "\<exists>e. progress_line a n = ([Print_No_Newline e], None)"
proof -
  from py_truediv_ok [OF assms] obtain q where q: "py_truediv a n = Inr (Fin q)" by blast
  have "(1024::int) \<noteq> 0" by simp
  from py_truediv_ok [OF this assms(2)] obtain k where k: "py_truediv a 1024 = Inr (Fin k)" by blast
  show ?thesis by (simp add: progress_line_def q k emit_def)
qed

lemma extract_loop_ok:
  assumes "0 < k" and "\<forall>x \<in> set os. 0 \<le> x \<and> x < n" and "0 \<le> off"
    and "off + n \<le> int (RAM_SIZE c)" and "0 \<le> br"
    and "br + sum_list (map (\<lambda>x. min k (n - x)) os) \<le> 2 ^ 1000"
  shows "snd (extract_loop c env off n k br os) = None
       \<and> chunks_of (extract_loop c env off n k br os)
           = map (\<lambda>x. map (ram_content env) [nat (off + x) ..< nat (off + x + min k (n - x))]) os"
  using assms
proof (induction os arbitrary: br)
  case Nil
  then show ?case by (simp add: chunks_of_def)
next
  case (Cons x os)
  define rs where "rs = min k (n - x)"
  have x: "0 \<le> x" "x < n" using Cons.prems(2) by simp_all
  have rs: "0 < rs" "rs \<le> n - x" using x Cons.prems(1) by (simp_all add: rs_def)
  have rd: "ram_read c env (off + x) rs
              = Inr (map (ram_content env) [nat (off + x) ..< nat (off + x + rs)])"
    using rs Cons.prems(4) by (simp add: ram_read_def)
  have sm: "0 \<le> sum_list (map (\<lambda>x. min k (n - x)) os)"
    using Cons.prems(1,2) by (intro sum_list_nonneg) auto
  have br': "0 \<le> br + rs" "br + rs \<le> 2 ^ 1000"
    using Cons.prems(5,6) rs sm by (simp_all add: rs_def)
  have n0: "n \<noteq> 0" using x by simp
  have "\<bar>br + rs\<bar> \<le> 2 ^ 1000" using br' by simp
  from progress_line_ok [OF n0 this]
  obtain e where e: "progress_line (br + rs) n = ([Print_No_Newline e], None)" by blast
  have IH: "snd (extract_loop c env off n k (br + rs) os) = None
       \<and> chunks_of (extract_loop c env off n k (br + rs) os)
           = map (\<lambda>x. map (ram_content env) [nat (off + x) ..< nat (off + x + min k (n - x))]) os"
    using Cons.prems br' by (intro Cons.IH) (simp_all add: rs_def add.assoc)
  obtain es where es: "extract_loop c env off n k (br + rs) os = (es, None)"
    using IH by (cases "extract_loop c env off n k (br + rs) os") simp
  have step: "extract_loop c env off n k br (x # os)
      = ([Ram_Read (off + x) rs,
          File_Write (OUT_RAW c) (map (ram_content env) [nat (off + x) ..< nat (off + x + rs)]),
          Print_No_Newline e] @ es, None)"
    using rd e es by (simp add: rs_def [symmetric] Let_def)
  have "chunks_of (es, None)
          = map (\<lambda>x. map (ram_content env) [nat (off + x) ..< nat (off + x + min k (n - x))]) os"
    using IH es by simp
  then show ?case
    unfolding step by (simp add: chunks_of_def rs_def)
qed

lemma py_range_elems:
  "x \<in> set (py_range i n k) \<Longrightarrow> i \<le> x \<and> x < n"
proof (induction i n k rule: py_range.induct)
  case (1 i stop stp)
  show ?case
  proof (cases "0 < stp \<and> i < stop")
    case True
    then have "x = i \<or> x \<in> set (py_range (i + stp) stop stp)"
      using "1.prems" by (subst (asm) py_range.simps) simp
    then show ?thesis using True "1.IH" by force
  next
    case False
    then show ?thesis using "1.prems" by (subst (asm) py_range.simps) simp
  qed
qed

lemma py_range_sizes:
  "0 < k \<Longrightarrow> map (\<lambda>x. min k (n - x)) (py_range i n k) = spec_chunk_sizes (n - i) k"
proof (induction i n k rule: py_range.induct)
  case (1 i stop stp)
  show ?case
  proof (cases "i < stop")
    case True
    have a: "py_range i stop stp = i # py_range (i + stp) stop stp"
      using True "1.prems" by (subst py_range.simps) simp
    have b: "spec_chunk_sizes (stop - i) stp
               = min stp (stop - i) # spec_chunk_sizes (stop - i - min stp (stop - i)) stp"
      using True "1.prems" by (subst spec_chunk_sizes.simps) simp
    have IH: "map (\<lambda>x. min stp (stop - x)) (py_range (i + stp) stop stp)
                = spec_chunk_sizes (stop - (i + stp)) stp"
      using "1.IH" True "1.prems" by simp
    show ?thesis
    proof (cases "stp \<le> stop - i")
      case True
      then have m: "min stp (stop - i) = stp" by simp
      have d: "stop - i - stp = stop - (i + stp)" by simp
      have "map (\<lambda>x. min stp (stop - x)) (i # py_range (i + stp) stop stp)
              = stp # spec_chunk_sizes (stop - (i + stp)) stp"
        using IH m by simp
      then show ?thesis unfolding a b m d .
    next
      case False
      then have m: "min stp (stop - i) = stop - i" by simp
      have "stop - (i + stp) \<le> 0" using False by simp
      then have "spec_chunk_sizes (stop - (i + stp)) stp = []"
        by (subst spec_chunk_sizes.simps) simp
      moreover have "spec_chunk_sizes (stop - i - min stp (stop - i)) stp = []"
        unfolding m by (subst spec_chunk_sizes.simps) simp
      ultimately show ?thesis using a b IH by simp
    qed
  next
    case False
    have "py_range i stop stp = []" using False by (subst py_range.simps) simp
    moreover have "spec_chunk_sizes (stop - i) stp = []"
      using False by (subst spec_chunk_sizes.simps) simp
    ultimately show ?thesis by simp
  qed
qed

lemma spec_chunk_sizes_sum:
  "0 < k \<Longrightarrow> 0 \<le> r \<Longrightarrow> sum_list (spec_chunk_sizes r k) = r"
proof (induction r k rule: spec_chunk_sizes.induct)
  case (1 remaining chunk_size)
  show ?case
  proof (cases "0 < remaining")
    case True
    have a: "spec_chunk_sizes remaining chunk_size
               = min chunk_size remaining
                   # spec_chunk_sizes (remaining - min chunk_size remaining) chunk_size"
      using True "1.prems" by (subst spec_chunk_sizes.simps) simp
    have "sum_list (spec_chunk_sizes (remaining - min chunk_size remaining) chunk_size)
            = remaining - min chunk_size remaining"
      using "1.IH" True "1.prems" by simp
    then show ?thesis using a by simp
  next
    case False
    then have "remaining = 0" using "1.prems" by simp
    then show ?thesis by (subst spec_chunk_sizes.simps) simp
  qed
qed

lemma upt_split:
  assumes "a \<le> b" and "b \<le> c"
  shows "[a ..< c] = [a ..< b] @ [b ..< c]"
  using upt_add_eq_append [OF assms(1), of "c - b"] assms(2) by simp

lemma py_range_concat:
  "0 < k \<Longrightarrow> 0 \<le> off \<Longrightarrow> 0 \<le> i \<Longrightarrow> i \<le> n \<Longrightarrow>
     concat (map (\<lambda>x. map f [nat (off + x) ..< nat (off + x + min k (n - x))]) (py_range i n k))
       = map f [nat (off + i) ..< nat (off + n)]"
proof (induction i n k rule: py_range.induct)
  case (1 i stop stp)
  show ?case
  proof (cases "i < stop")
    case True
    have a: "py_range i stop stp = i # py_range (i + stp) stop stp"
      using True "1.prems" by (subst py_range.simps) simp
    show ?thesis
    proof (cases "i + stp \<le> stop")
      case le: True
      have IH: "concat (map (\<lambda>x. map f [nat (off + x) ..< nat (off + x + min stp (stop - x))])
                  (py_range (i + stp) stop stp))
                = map f [nat (off + (i + stp)) ..< nat (off + stop)]"
        using "1.IH" True "1.prems" le by simp
      have m: "min stp (stop - i) = stp" using le by simp
      have le1: "nat (off + i) \<le> nat (off + i + stp)" using "1.prems" by simp
      have le2: "nat (off + i + stp) \<le> nat (off + stop)" using "1.prems" le by simp
      have "[nat (off + i) ..< nat (off + stop)]
              = [nat (off + i) ..< nat (off + i + stp)] @ [nat (off + i + stp) ..< nat (off + stop)]"
        by (rule upt_split [OF le1 le2])
      then show ?thesis using a IH m by (simp add: add.assoc)
    next
      case False
      then have m: "min stp (stop - i) = stop - i" by simp
      have "py_range (i + stp) stop stp = []" using False by (subst py_range.simps) simp
      then show ?thesis using a m by simp
    qed
  next
    case False
    then have "i = stop" using "1.prems" by simp
    moreover have "py_range i stop stp = []" using False by (subst py_range.simps) simp
    ultimately show ?thesis by simp
  qed
qed

lemma extract_capture_ok:
  assumes "0 \<le> n" and "0 < k" and "0 \<le> off" and "off + n \<le> int (RAM_SIZE c)"
    and "n \<le> 2 ^ 1000"
  shows "snd (extract_capture c env off n k) = None"
    and "chunks_of (extract_capture c env off n k)
           = map (\<lambda>x. map (ram_content env) [nat (off + x) ..< nat (off + x + min k (n - x))])
               (py_range 0 n k)"
proof -
  have el: "\<forall>x \<in> set (py_range 0 n k). 0 \<le> x \<and> x < n"
    using py_range_elems by blast
  have "sum_list (map (\<lambda>x. min k (n - x)) (py_range 0 n k)) = n"
    using py_range_sizes [OF assms(2), of n 0] spec_chunk_sizes_sum [OF assms(2,1)] by simp
  then have sm: "0 + sum_list (map (\<lambda>x. min k (n - x)) (py_range 0 n k)) \<le> 2 ^ 1000"
    using assms(5) by simp
  have "(0::int) \<le> 0" by simp
  from extract_loop_ok [OF assms(2) el assms(3,4) this sm, of env]
  show "snd (extract_capture c env off n k) = None"
    and "chunks_of (extract_capture c env off n k)
           = map (\<lambda>x. map (ram_content env) [nat (off + x) ..< nat (off + x + min k (n - x))])
               (py_range 0 n k)"
    by (simp_all add: extract_capture_def)
qed

text \<open>
  Claim C5.  Let the capture of \<open>n \<ge> 0\<close> bytes at relative offset \<open>off\<close> lie inside the RAM
  mapping, and let the chunk size \<open>k\<close> be positive.  Then the extraction loop runs to its end,
  the sizes of the chunks it writes are the chunk size or what remains, whichever is less,
  until nothing remains; the sizes add up to exactly \<open>n\<close>; and the chunks concatenated are
  the \<open>n\<close> bytes of the capture region, whatever the chunk size.  (The bound \<open>2^1000\<close> keeps
  the progress percentage within the range of a float.)
\<close>

theorem extraction_chunks_cover_capture:
  assumes "0 \<le> n" and "0 < k" and "0 \<le> off" and "off + n \<le> int (RAM_SIZE c)"
    and "n \<le> 2 ^ 1000"
  shows "snd (extract_capture c env off n k) = None
       \<and> map (\<lambda>b. int (length b)) (chunks_of (extract_capture c env off n k)) = spec_chunk_sizes n k
       \<and> sum_list (map (\<lambda>b. int (length b)) (chunks_of (extract_capture c env off n k))) = n
       \<and> concat (chunks_of (extract_capture c env off n k))
           = map (ram_content env) [nat off ..< nat (off + n)]"
proof -
  note ok = extract_capture_ok [OF assms, of env]
  have len: "map (\<lambda>b. int (length b)) (chunks_of (extract_capture c env off n k))
               = map (\<lambda>x. min k (n - x)) (py_range 0 n k)"
  proof -
    have "int (nat (off + x + min k (n - x)) - nat (off + x)) = min k (n - x)"
      if "x \<in> set (py_range 0 n k)" for x
    proof -
      have "0 \<le> x" "x < n" using py_range_elems [OF that] by simp_all
      then show ?thesis using assms(2,3) by simp
    qed
    then show ?thesis by (simp add: ok(2) comp_def cong: map_cong)
  qed
  have sizes: "map (\<lambda>b. int (length b)) (chunks_of (extract_capture c env off n k))
                 = spec_chunk_sizes n k"
    using len py_range_sizes [OF assms(2), of n 0] by simp
  have total: "sum_list (map (\<lambda>b. int (length b)) (chunks_of (extract_capture c env off n k))) = n"
    unfolding sizes by (rule spec_chunk_sizes_sum [OF assms(2,1)])
  have "(0::int) \<le> 0" by simp
  from py_range_concat [OF assms(2,3) this assms(1), of "ram_content env"]
  have cat: "concat (chunks_of (extract_capture c env off n k))
           = map (ram_content env) [nat off ..< nat (off + n)]"
    unfolding ok(2) by simp
  from ok(1) sizes total cat show ?thesis by blast
qed

lemma spec_chunk_sizes_example:
  "spec_chunk_sizes 10000000 8388608 = [8388608, 1611392]"
  by (simp add: spec_chunk_sizes.simps [of 10000000] spec_chunk_sizes.simps [of 1611392]
      spec_chunk_sizes.simps [of 0])

theorem extraction_chunks_cover_capture_witness:
  "(0::int) \<le> 10000000 \<and> (0::int) < 8 * 1024 * 1024 \<and> (0::int) \<le> 0
   \<and> 0 + 10000000 \<le> int (RAM_SIZE (shipped \<lparr> RAM_SIZE := 16 * 1024 * 1024 \<rparr>))
   \<and> (10000000::int) \<le> 2 ^ 1000
   \<and> snd (extract_capture (shipped \<lparr> RAM_SIZE := 16 * 1024 * 1024 \<rparr>)
          \<lparr> axil_open_error = None, ram_open_error = None, mla_const = 0,
            wave_sample = (\<lambda>i. 0), ram_content = (\<lambda>i. of_nat i), stdin_line = Some [],
            raw_open_ok = True, meta_open_ok = True, timestamp = [],
            stdout_encodes = (\<lambda>ch. True) \<rparr>
          0 10000000 (8 * 1024 * 1024)) = None
   \<and> map (\<lambda>b. int (length b)) (chunks_of (extract_capture (shipped \<lparr> RAM_SIZE := 16 * 1024 * 1024 \<rparr>)
          \<lparr> axil_open_error = None, ram_open_error = None, mla_const = 0,
            wave_sample = (\<lambda>i. 0), ram_content = (\<lambda>i. of_nat i), stdin_line = Some [],
            raw_open_ok = True, meta_open_ok = True, timestamp = [],
            stdout_encodes = (\<lambda>ch. True) \<rparr>
          0 10000000 (8 * 1024 * 1024)))
       = [8388608, 1611392]
   \<and> sum_list (map (\<lambda>b. int (length b)) (chunks_of (extract_capture (shipped \<lparr> RAM_SIZE := 16 * 1024 * 1024 \<rparr>)
          \<lparr> axil_open_error = None, ram_open_error = None, mla_const = 0,
            wave_sample = (\<lambda>i. 0), ram_content = (\<lambda>i. of_nat i), stdin_line = Some [],
            raw_open_ok = True, meta_open_ok = True, timestamp = [],
            stdout_encodes = (\<lambda>ch. True) \<rparr>
          0 10000000 (8 * 1024 * 1024))))
       = 10000000"
  using extraction_chunks_cover_capture [of 10000000 "8 * 1024 * 1024" 0
      "shipped \<lparr> RAM_SIZE := 16 * 1024 * 1024 \<rparr>"
      "\<lparr> axil_open_error = None, ram_open_error = None, mla_const = 0,
            wave_sample = (\<lambda>i. 0), ram_content = (\<lambda>i. of_nat i), stdin_line = Some [],
            raw_open_ok = True, meta_open_ok = True, timestamp = [],
            stdout_encodes = (\<lambda>ch. True) \<rparr>"]
  by (simp add: spec_chunk_sizes_example)

section \<open>The script as a whole\<close>

subsection \<open>Sequencing\<close>

lemma seq_stop: "seq ((es, Some x) # rest) = (es, Some x)"
  by simp

lemma seq_go: "seq ((es, None) # rest) = (es @ fst (seq rest), snd (seq rest))"
  by (simp split: prod.splits)

lemma seq_Cons:
  "seq (s # rest) =
     (case snd s of Some x \<Rightarrow> s | None \<Rightarrow> (fst s @ fst (seq rest), snd (seq rest)))"
  by (cases s; cases "snd s") (auto split: prod.splits)

lemma fst_seq_Cons:
  "fst (seq (s # rest)) = (case snd s of Some x \<Rightarrow> fst s | None \<Rightarrow> fst s @ fst (seq rest))"
  by (simp add: seq_Cons split: option.splits)

lemma snd_seq_Cons:
  "snd (seq (s # rest)) = (case snd s of Some x \<Rightarrow> Some x | None \<Rightarrow> snd (seq rest))"
  by (simp add: seq_Cons split: option.splits)

subsection \<open>The chunked write\<close>

lemma tobytes_nonempty: "waveform \<noteq> [] \<Longrightarrow> tobytes waveform \<noteq> []"
  by (cases waveform) (simp_all add: tobytes_def)

lemma write_chunks_raises:
  "write_chunks c wave_bytes chunk_size (i # rest) = ([], Some (Raise TypeError))"
  by (simp add: call_bytes_def raise_def)

lemma py_range_first: "0 < stp \<Longrightarrow> i < stop \<Longrightarrow> py_range i stop stp = i # py_range (i + stp) stop stp"
  by (subst py_range.simps) simp

lemma write_waveform_raises:
  assumes "wave_bytes \<noteq> []"
  shows "write_waveform c wave_bytes
           = ([Print [S ''Writing excitation waveform to DDR...'']], Some (Raise TypeError))"
proof -
  have "0 < int (length wave_bytes)" using assms by simp
  then have "py_range 0 (int (length wave_bytes)) (1024 * 1024)
               = 0 # py_range (0 + 1024 * 1024) (int (length wave_bytes)) (1024 * 1024)"
    by (intro py_range_first) simp_all
  then show ?thesis
    by (simp add: write_waveform_def call_bytes_def raise_def say_def emit_def)
qed

text \<open>
  Claim C6.  The loop that writes the waveform in chunks calls \<open>wave_bytes()\<close>, and a
  \<open>bytes\<close> object cannot be called.  For every non-empty waveform the first pass of the loop
  raises \<open>TypeError\<close>: after the announcement nothing is written to the RAM, and everything
  the script would do from there on (configuration of the registers included) is not
  done.
\<close>

theorem chunked_write_raises_type_error:
  assumes "waveform \<noteq> []"
  shows "write_waveform c (tobytes waveform)
           = ([Print [S ''Writing excitation waveform to DDR...'']], Some (Raise TypeError))
       \<and> after_layout c env waveform l
           = ([Print [S ''Writing excitation waveform to DDR...'']], Some (Raise TypeError))
       \<and> filter register_access (fst (after_layout c env waveform l)) = []
       \<and> filter buffer_access (fst (after_layout c env waveform l)) = []"
  using write_waveform_raises [OF tobytes_nonempty [OF assms]]
  by (simp add: after_layout_def)

theorem chunked_write_raises_type_error_witness:
  "[0 :: 16 word] \<noteq> []
   \<and> write_waveform shipped (tobytes [0])
       = ([Print [S ''Writing excitation waveform to DDR...'']], Some (Raise TypeError))
   \<and> (\<forall>env l. after_layout shipped env [0] l
           = ([Print [S ''Writing excitation waveform to DDR...'']], Some (Raise TypeError)))"
  using chunked_write_raises_type_error [of "[0]" shipped]
  by simp

subsection \<open>Mapping failure\<close>

text \<open>
  Claim C8.  If opening the register mapping or the RAM mapping fails, the script exits
  with status 1, and the run contains no register read or write and no access to the
  RAM buffer.
\<close>

theorem mapping_failure_is_fatal:
  assumes "axil_open_error env = Some e \<or> ram_open_error env = Some e"
  shows "snd (main c env) = Some (Exit 1)
       \<and> filter register_access (fst (main c env)) = []
       \<and> filter buffer_access (fst (main c env)) = []"
  using assms
  by (auto simp: main_def startup_def map_regions_def say_def emit_def split: option.splits)

theorem mapping_failure_is_fatal_witness:
  "ram_open_error \<lparr> axil_open_error = None, ram_open_error = Some ''Permission denied'',
       mla_const = 0, wave_sample = (\<lambda>i. 0), ram_content = (\<lambda>i. 0), stdin_line = Some [],
       raw_open_ok = True, meta_open_ok = True, timestamp = [],
       stdout_encodes = (\<lambda>ch. True) \<rparr> = Some ''Permission denied''
   \<and> main shipped \<lparr> axil_open_error = None, ram_open_error = Some ''Permission denied'',
       mla_const = 0, wave_sample = (\<lambda>i. 0), ram_content = (\<lambda>i. 0), stdin_line = Some [],
       raw_open_ok = True, meta_open_ok = True, timestamp = [],
       stdout_encodes = (\<lambda>ch. True) \<rparr>
     = ([Print [S ''Mapping FPGA memory regions...''],
         Mmio_Open 0x40000000 0x1000,
         Print [S ''ERROR: Unable to map FPGA memory regions: '', S ''Permission denied'']],
        Some (Exit 1))
   \<and> filter register_access (fst (main shipped \<lparr> axil_open_error = None,
       ram_open_error = Some ''Permission denied'',
       mla_const = 0, wave_sample = (\<lambda>i. 0), ram_content = (\<lambda>i. 0), stdin_line = Some [],
       raw_open_ok = True, meta_open_ok = True, timestamp = [],
       stdout_encodes = (\<lambda>ch. True) \<rparr>)) = []"
  using mapping_failure_is_fatal [of
      "\<lparr> axil_open_error = None, ram_open_error = Some ''Permission denied'',
       mla_const = 0, wave_sample = (\<lambda>i. 0), ram_content = (\<lambda>i. 0), stdin_line = Some [],
       raw_open_ok = True, meta_open_ok = True, timestamp = [],
       stdout_encodes = (\<lambda>ch. True) \<rparr>" "''Permission denied''" shipped]
  by (simp add: main_def startup_def map_regions_def say_def emit_def shipped_def)

subsection \<open>The identity check\<close>


















lemma identity_check_unprintable:
  assumes "4 \<le> AXIL_SIZE c" and "\<not> printable env (magic_str (mla_const env))"
  shows "identity_check c env = ([Read32 MLA_CONST_REG], Some (Raise UnicodeEncodeError))"
  using assms
  by (simp add: identity_check_def read32_def MLA_CONST_REG_def emit_def say_def raise_def
      py_print_def)




lemma magic_str_match: "magic_str 0xC5414243 = expected_magic"
  unfolding magic_str_def to_bytes_big_def decode_latin1_def strip_def expected_magic_def
  by code_simp


subsection \<open>The script never reaches the configuration step\<close>

lemma after_layout_raises:
  assumes "waveform \<noteq> []"
  shows "after_layout c env waveform l
           = ([Print [S ''Writing excitation waveform to DDR...'']], Some (Raise TypeError))"
  using write_waveform_raises [OF tobytes_nonempty [OF assms]]
  by (simp add: after_layout_def)

lemma step_parts:
  "fst (emit e) = [e]" "snd (emit e) = None"
  "fst (say t) = [Print [S t]]" "snd (say t) = None"
  "fst (raise x) = []" "snd (raise x) = Some (Raise x)"
  "fst (ram_write c off data) = (if int (RAM_SIZE c) < off + int (length data) then []
                                 else [Ram_Write off data])"
  "snd (ram_write c off data) = (if int (RAM_SIZE c) < off + int (length data)
                                 then Some (Raise ValueError) else None)"
  by (simp_all add: emit_def say_def raise_def ram_write_def)

lemma seq_Nil_parts: "fst (seq []) = []" "snd (seq []) = None"
  by simp_all

lemma layout_script_prints: "\<forall>e \<in> set (fst (layout_script c n)). printed e"
  by (auto simp: layout_script_def Let_def split: sum.splits)

lemma printed_only:
  assumes "\<forall>e \<in> set es. printed e"
  shows "filter register_access es = []" and "filter buffer_access es = []"
    and "filter (\<lambda>e. \<not> printed e) es = []"
proof -
  have "\<not> register_access e \<and> \<not> buffer_access e" if "printed e" for e
    using that by (cases e) simp_all
  then show "filter register_access es = []" and "filter buffer_access es = []"
    and "filter (\<lambda>e. \<not> printed e) es = []"
    using assms by (auto simp: filter_empty_conv)
qed

lemma plan_waveform_stops:
  assumes "waveform \<noteq> []"
  shows "snd (plan_waveform c env waveform) \<noteq> None
       \<and> filter register_access (fst (plan_waveform c env waveform)) = []"
proof -
  obtain es r where lr: "layout_script c (length waveform) = (es, r)"
    by (cases "layout_script c (length waveform)")
  have "filter register_access es = []"
    using printed_only(1) [OF layout_script_prints [of c "length waveform"]] lr by simp
  then show ?thesis
    by (cases r)
      (simp_all add: plan_waveform_def lr fst_seq_Cons snd_seq_Cons after_layout_raises [OF assms]
        step_parts seq_Nil_parts del: seq.simps)
qed

lemma waveform_of_nonempty: "0 < N \<Longrightarrow> waveform_of env N \<noteq> []"
  by (simp add: waveform_of_def)

lemma generate_stops:
  assumes "sample_count c = Inr N" and "0 < N"
  shows "snd (generate c env) \<noteq> None
       \<and> filter register_access (fst (generate c env)) = []"
  by (simp add: generate_def assms(1) fst_seq_Cons snd_seq_Cons step_parts seq_Nil_parts
      plan_waveform_stops [OF waveform_of_nonempty [OF assms(2)], THEN conjunct1]
      plan_waveform_stops [OF waveform_of_nonempty [OF assms(2)], THEN conjunct2]
      del: seq.simps split: option.splits)

lemma main_never_configures:
  assumes "sample_count c = Inr N" and "0 < N"
  shows "snd (main c env) \<noteq> None
       \<and> filter register_access (fst (main c env)) = filter register_access (fst (startup c env))"
  by (simp add: main_def fst_seq_Cons snd_seq_Cons seq_Nil_parts
      generate_stops [OF assms, THEN conjunct1] generate_stops [OF assms, THEN conjunct2]
      del: seq.simps split: option.splits)

subsection \<open>The identity check, continued\<close>



text \<open>
  When standard output lacks a character of the decoded string, the first line that holds
  the string is not printed and the script stops there: with an ASCII-only standard output
  this happens even for the expected identity.
\<close>

lemma expected_identity_unprintable:
  "identity_check shipped
     \<lparr> axil_open_error = None, ram_open_error = None, mla_const = 0xC5414243,
       wave_sample = (\<lambda>i. 0), ram_content = (\<lambda>i. 0), stdin_line = Some [],
       raw_open_ok = True, meta_open_ok = True, timestamp = [],
       stdout_encodes = (\<lambda>ch. False) \<rparr>
   = ([Read32 MLA_CONST_REG], Some (Raise UnicodeEncodeError))"
  by (rule identity_check_unprintable)
    (simp_all add: shipped_def magic_str_match expected_magic_def printable_def)

subsection \<open>The layout the script uses\<close>

text \<open>
  The layout the script prints, programs and stores is the one \<open>compute_layout\<close> gives:
  when the layout computation succeeds the script goes on with exactly that layout, and
  when it fails the script stops with the same error.
\<close>

lemma layout_script_result: "snd (layout_script c n) = compute_layout c n"
  by (simp add: layout_script_def compute_layout_def Let_def split: sum.splits)

lemma plan_waveform_uses_layout:
  assumes "compute_layout c (length waveform) = Inr l"
    and "snd (ram_write c 0 (tobytes waveform)) = None"
  shows "snd (plan_waveform c env waveform) = snd (after_layout c env waveform l)
       \<and> filter (\<lambda>e. \<not> printed e) (fst (plan_waveform c env waveform))
           = Ram_Write 0 (tobytes waveform)
               # filter (\<lambda>e. \<not> printed e) (fst (after_layout c env waveform l))"
proof -
  obtain es where lr: "layout_script c (length waveform) = (es, Inr l)"
    using layout_script_result [of c "length waveform"] assms(1)
    by (cases "layout_script c (length waveform)") simp
  have p: "filter (\<lambda>e. \<not> printed e) es = []"
    using printed_only(3) [OF layout_script_prints [of c "length waveform"]] lr by simp
  have w: "\<not> int (RAM_SIZE c) < int (length (tobytes waveform))"
    using assms(2) by (simp add: ram_write_def raise_def split: if_splits)
  show ?thesis
    using w p
    by (simp add: plan_waveform_def lr fst_seq_Cons snd_seq_Cons step_parts seq_Nil_parts
        del: seq.simps split: option.splits)
qed

lemma plan_waveform_layout_error:
  assumes "compute_layout c (length waveform) = Inl e"
    and "snd (ram_write c 0 (tobytes waveform)) = None"
  shows "snd (plan_waveform c env waveform) = Some (Raise e)
       \<and> filter (\<lambda>e. \<not> printed e) (fst (plan_waveform c env waveform))
           = [Ram_Write 0 (tobytes waveform)]"
proof -
  obtain es where lr: "layout_script c (length waveform) = (es, Inl e)"
    using layout_script_result [of c "length waveform"] assms(1)
    by (cases "layout_script c (length waveform)") simp
  have p: "filter (\<lambda>e. \<not> printed e) es = []"
    using printed_only(3) [OF layout_script_prints [of c "length waveform"]] lr by simp
  have w: "\<not> int (RAM_SIZE c) < int (length (tobytes waveform))"
    using assms(2) by (simp add: ram_write_def raise_def split: if_splits)
  show ?thesis
    using w p
    by (simp add: plan_waveform_def lr fst_seq_Cons snd_seq_Cons step_parts seq_Nil_parts
        del: seq.simps)
qed

lemma layout_script_frame:
  assumes "SAMPLE_SIZE c1 = SAMPLE_SIZE c2" and "BURST_BYTES c1 = BURST_BYTES c2"
    and "RELAXATION_TIME_US c1 = RELAXATION_TIME_US c2" and "SAMPLE_RATE c1 = SAMPLE_RATE c2"
    and "RAM_BASE c1 = RAM_BASE c2"
  shows "layout_script c1 n = layout_script c2 n"
  unfolding layout_script_def assms by (rule refl)

lemma layout_script_shipped:
  "fst (layout_script shipped 125000) =
     [Print [S ''Excitation waveform generated: '', D 125000, S '' samples''],
      Print [S ''Computing RAM layout...''],
      Print [S ''Waveform occupied'', D 250048, S '' bytes ('', D 1953, S '' bursts).''],
      Print [S ''Capture region absolute addr : 0x'', X 17027264],
      Print [S ''Capture region relative addr : 0x'', X 250048],
      Print [S ''Relaxation samples aligned : '', D 375040],
      Print [S ''Writer bursts              : '', D 5860],
      Print [S ''Capture size (bytes)       : '', D 750080]]"
  by (simp add: layout_script_def shipped_fields relax_count_shipped pad_waveform_def
      py_floordiv_def align_relax_def capture_bursts_def capture_bytes_def)

text \<open>
  Claim C9, the claim as worded.  The layout computation is not free of side effects: with
  the shipped configuration and its 125000 samples, lines 197--257 print eight lines.
\<close>

theorem layout_computation_prints:
  "fst (layout_script shipped 125000) =
     [Print [S ''Excitation waveform generated: '', D 125000, S '' samples''],
      Print [S ''Computing RAM layout...''],
      Print [S ''Waveform occupied'', D 250048, S '' bytes ('', D 1953, S '' bursts).''],
      Print [S ''Capture region absolute addr : 0x'', X 17027264],
      Print [S ''Capture region relative addr : 0x'', X 250048],
      Print [S ''Relaxation samples aligned : '', D 375040],
      Print [S ''Writer bursts              : '', D 5860],
      Print [S ''Capture size (bytes)       : '', D 750080]]
   \<and> fst (layout_script shipped 125000) \<noteq> []"
  by (simp add: layout_script_shipped)

text \<open>
  Claim C9, amended.  The layout computation is deterministic, and printing is its only
  side effect.  Two configurations that agree on the sample size, the burst size, the
  relaxation time, the sample rate and the RAM base give, for the same waveform sample
  count, the same layout (or the same exception) and the same printed lines; no other
  constant and nothing of the environment is consulted.  The lines 197--257 do nothing but
  print: they access no register and no buffer.  The layout they yield is the one
  \<open>compute_layout\<close> gives.
\<close>

theorem layout_identical_across_runs:
  assumes "SAMPLE_SIZE c1 = SAMPLE_SIZE c2" and "BURST_BYTES c1 = BURST_BYTES c2"
    and "RELAXATION_TIME_US c1 = RELAXATION_TIME_US c2" and "SAMPLE_RATE c1 = SAMPLE_RATE c2"
    and "RAM_BASE c1 = RAM_BASE c2"
  shows "layout_script c1 n = layout_script c2 n
       \<and> snd (layout_script c1 n) = compute_layout c2 n
       \<and> filter (\<lambda>e. \<not> printed e) (fst (layout_script c1 n)) = []
       \<and> filter register_access (fst (layout_script c1 n)) = []
       \<and> filter buffer_access (fst (layout_script c1 n)) = []"
  using layout_script_frame [OF assms, of n] layout_script_result [of c2 n]
    printed_only [OF layout_script_prints [of c1 n]]
  by simp

theorem layout_identical_across_runs_witness:
  "SAMPLE_SIZE shipped = SAMPLE_SIZE (shipped \<lparr> FREQ_HZ := Fin 1, OUT_RAW := ''x'', RAM_SIZE := 0 \<rparr>)
   \<and> BURST_BYTES shipped = BURST_BYTES (shipped \<lparr> FREQ_HZ := Fin 1, OUT_RAW := ''x'', RAM_SIZE := 0 \<rparr>)
   \<and> RELAXATION_TIME_US shipped
       = RELAXATION_TIME_US (shipped \<lparr> FREQ_HZ := Fin 1, OUT_RAW := ''x'', RAM_SIZE := 0 \<rparr>)
   \<and> SAMPLE_RATE shipped = SAMPLE_RATE (shipped \<lparr> FREQ_HZ := Fin 1, OUT_RAW := ''x'', RAM_SIZE := 0 \<rparr>)
   \<and> RAM_BASE shipped = RAM_BASE (shipped \<lparr> FREQ_HZ := Fin 1, OUT_RAW := ''x'', RAM_SIZE := 0 \<rparr>)
   \<and> layout_script shipped 125000
       = layout_script (shipped \<lparr> FREQ_HZ := Fin 1, OUT_RAW := ''x'', RAM_SIZE := 0 \<rparr>) 125000
   \<and> snd (layout_script shipped 125000)
       = compute_layout (shipped \<lparr> FREQ_HZ := Fin 1, OUT_RAW := ''x'', RAM_SIZE := 0 \<rparr>) 125000
   \<and> filter register_access (fst (layout_script shipped 125000)) = []"
proof -
  have "layout_script shipped 125000
      = layout_script (shipped \<lparr> FREQ_HZ := Fin 1, OUT_RAW := ''x'', RAM_SIZE := 0 \<rparr>) 125000
    \<and> snd (layout_script shipped 125000)
      = compute_layout (shipped \<lparr> FREQ_HZ := Fin 1, OUT_RAW := ''x'', RAM_SIZE := 0 \<rparr>) 125000
    \<and> filter (\<lambda>e. \<not> printed e) (fst (layout_script shipped 125000)) = []
    \<and> filter register_access (fst (layout_script shipped 125000)) = []
    \<and> filter buffer_access (fst (layout_script shipped 125000)) = []"
    by (rule layout_identical_across_runs) simp_all
  then have a: "layout_script shipped 125000
      = layout_script (shipped \<lparr> FREQ_HZ := Fin 1, OUT_RAW := ''x'', RAM_SIZE := 0 \<rparr>) 125000"
    and b: "snd (layout_script shipped 125000)
      = compute_layout (shipped \<lparr> FREQ_HZ := Fin 1, OUT_RAW := ''x'', RAM_SIZE := 0 \<rparr>) 125000"
    and c: "filter register_access (fst (layout_script shipped 125000)) = []"
    by blast+
  show ?thesis by (intro conjI a b c) simp_all
qed

end
